theory Spec2Isabelle
  imports Complex_Main "HOL-Library.Multiset"
begin

section \<open>Errors, results and the simulation engine\<close>

text \<open>
  The exceptions the modelled code raises.  \<open>ValueError\<close>, \<open>IndexError\<close> and
  \<open>KeyError\<close> are Python's own (\<open>list.index\<close>, \<open>xs[0]\<close>, \<open>d[k]\<close>, \<open>float\<close>);
  \<open>EngineError\<close> stands for an exception raised inside the simulation engine.
\<close>

datatype error =
    TrafficObjectsError
  | SimulationLibError
  | ClientError string
  | ValueError
  | IndexError
  | KeyError
  | EngineError

text \<open>
  A stateful operation either returns a value together with the state it leaves, or raises
  an error in the state reached at the \<open>raise\<close>.
\<close>

datatype ('a, 's) outcome = Ok 'a 's | Err error 's

fun state_of :: "('a, 's) outcome \<Rightarrow> 's" where
  "state_of (Ok a s) = s"
| "state_of (Err e s) = s"

fun is_ok :: "('a, 's) outcome \<Rightarrow> bool" where
  "is_ok (Ok a s) = True"
| "is_ok (Err e s) = False"

text \<open>
  The three shapes of \<open>vehicle.highlight(**flags)\<close> used in the code: no flags,
  \<open>color=(r, g, b, a)\<close>, and \<open>duration=1, alphaMax=1\<close> (\<open>stop_highlight\<close>).
\<close>

datatype highlight_flags =
    HlDefault
  | HlColor nat nat nat nat
  | HlStop

text \<open>The mutating requests sent to the engine, in the order they are issued.\<close>

datatype call =
    SetSpeed string real
  | SetMaxSpeed string real
  | ChangeTarget string string
  | Highlight string highlight_flags
  | AddVehicle string string
  | SimulationStep

text \<open>
  The engine as the code sees it through \<open>traci\<close>: the answers to its queries and the log
  of mutating calls.  \<open>setMaxSpeed\<close> is answered by later \<open>getMaxSpeed\<close> queries;
  \<open>setSpeed\<close> only commands a speed, the speed \<open>getSpeed\<close> reports is the engine's own.
  Speeds and coordinates are Python floats, modelled as reals (no rounding).
\<close>

record engine =
  veh_id_list :: "string list"
  veh_position :: "string \<Rightarrow> real \<times> real"
  veh_route :: "string \<Rightarrow> string list"
  veh_road_id :: "string \<Rightarrow> string"
  veh_speed :: "string \<Rightarrow> real"
  veh_max_speed :: "string \<Rightarrow> real"
  route_ids :: "string list"
  route_edges :: "string \<Rightarrow> string list"
  edge_ids :: "string list"
  calls :: "call list"

section \<open>The data model\<close>

text \<open>Class \<open>vehicle\<close> (\<open>traffic_objects.py\<close>).\<close>

record vehicle =
  vid :: string
  init_route :: string
  curr_edge :: string
  target_edge :: string
  target_speed :: real
  ensurance_active :: bool

text \<open>
  Class \<open>platoon_member\<close>: a vehicle object (by reference), the children found in the
  last propagation and the maximum speed read when the member was created.
\<close>

datatype platoon_member =
  platoon_member (member_v: nat) (members_in_radius: "platoon_member list")
    (original_max_speed: real)

text \<open>Class \<open>platoon\<close> (its instance attributes).\<close>

record platoon =
  focal_point :: platoon_member
  focal_direction :: bool
  radius :: real

text \<open>
  The process-wide state.  Vehicle objects are shared between the registry list, the id map,
  the candidate pool and the platoon tree, so they live in a store (\<open>heap\<close>) and are held
  by address everywhere else.  \<open>VEHICLES\<close>, \<open>ID_TO_VEHICLE\<close>, \<open>PLATOON\<close> and \<open>EXIT\<close>
  are the globals of \<open>system_globals.py\<close>; \<open>latest_id\<close> is \<open>vehicle.latest_id\<close>;
  \<open>search_vehicles\<close> is \<open>platoon_member.search_vehicles\<close>; \<open>platoon_size\<close> and
  \<open>platoon_members\<close> are the class attributes \<open>platoon.size\<close> and \<open>platoon.members\<close>.
\<close>

record world =
  eng :: engine
  heap :: "nat \<Rightarrow> vehicle"
  VEHICLES :: "nat list"
  ID_TO_VEHICLE :: "string \<rightharpoonup> nat"
  PLATOON :: "platoon option"
  EXIT :: bool
  latest_id :: nat
  search_vehicles :: "nat list"
  platoon_size :: nat
  platoon_members :: "nat list"

text \<open>
  A Python value, where the code compares values of different classes: a string never
  equals a vehicle object or an exception object.
\<close>

datatype pyval = PyStr string | PyVehicle nat | PyException error

section \<open>Vehicle queries and engine calls\<close>

definition vehicle_id :: "world \<Rightarrow> nat \<Rightarrow> string" where
  "vehicle_id w r = vid (heap w r)"

definition issue :: "call \<Rightarrow> world \<Rightarrow> world" where
  "issue c w = w\<lparr>eng := (eng w)\<lparr>calls := calls (eng w) @ [c]\<rparr>\<rparr>"

definition get_coordinates :: "world \<Rightarrow> nat \<Rightarrow> real \<times> real" where
  "get_coordinates w r = veh_position (eng w) (vehicle_id w r)"

definition get_route :: "world \<Rightarrow> nat \<Rightarrow> string list" where
  "get_route w r = veh_route (eng w) (vehicle_id w r)"

definition get_max_speed :: "world \<Rightarrow> nat \<Rightarrow> real" where
  "get_max_speed w r = veh_max_speed (eng w) (vehicle_id w r)"

definition get_speed :: "world \<Rightarrow> nat \<Rightarrow> real" where
  "get_speed w r = veh_speed (eng w) (vehicle_id w r)"

text \<open>\<open>route[route.index(self.curr_edge):]\<close>; \<open>index\<close> raises when the edge is absent.\<close>

definition get_remaining_edges :: "world \<Rightarrow> nat \<Rightarrow> error + string list" where
  "get_remaining_edges w r =
     (let route = get_route w r in
      if curr_edge (heap w r) \<in> set route
      then Inr (dropWhile (\<lambda>e. e \<noteq> curr_edge (heap w r)) route)
      else Inl ValueError)"

definition highlight :: "nat \<Rightarrow> highlight_flags \<Rightarrow> world \<Rightarrow> world" where
  "highlight r flags w = issue (Highlight (vehicle_id w r) flags) w"

definition stop_highlight :: "nat \<Rightarrow> world \<Rightarrow> world" where
  "stop_highlight r w = highlight r HlStop w"

text \<open>\<open>utilities.distance\<close>.\<close>

definition distance :: "real \<times> real \<Rightarrow> real \<times> real \<Rightarrow> real" where
  "distance c1 c2 =
     (let x_dist = (fst c1 - fst c2) ^ 2; y_dist = (snd c1 - snd c2) ^ 2
      in sqrt (x_dist + y_dist))"

section \<open>Directional eligibility (\<open>simulation_lib.py\<close>)\<close>

definition has_past_subroute :: "world \<Rightarrow> string list \<Rightarrow> nat \<Rightarrow> error + bool" where
  "has_past_subroute w direction r =
     (let v_route = get_route w r in
      case direction of
        [] \<Rightarrow> Inl IndexError
      | start_e # _ \<Rightarrow>
          if start_e \<notin> set v_route then Inr False
          else Inr (curr_edge (heap w r) \<in> set (dropWhile (\<lambda>e. e \<noteq> start_e) v_route)))"

text \<open>
  The loop of \<open>get_vehicles_in_direction\<close> over \<open>sg.VEHICLES\<close>.  The test
  \<open>v.id in exclude\<close> compares the id, a string, with the elements of \<open>exclude\<close>.
\<close>

fun get_vehicles_in_direction_loop ::
  "world \<Rightarrow> string list \<Rightarrow> pyval list \<Rightarrow> nat list \<Rightarrow> nat list \<Rightarrow> error + nat list" where
  "get_vehicles_in_direction_loop w direction exclude [] return_vehicles = Inr return_vehicles"
| "get_vehicles_in_direction_loop w direction exclude (r # rs) return_vehicles =
     (if PyStr (vehicle_id w r) \<in> set exclude
      then get_vehicles_in_direction_loop w direction exclude rs return_vehicles
      else
        (case direction of
           [] \<Rightarrow> Inl IndexError
         | d0 # _ \<Rightarrow>
             (case get_remaining_edges w r of
                Inl e \<Rightarrow> Inl e
              | Inr remaining \<Rightarrow>
                  if d0 \<in> set remaining
                  then get_vehicles_in_direction_loop w direction exclude rs (return_vehicles @ [r])
                  else
                    (case has_past_subroute w direction r of
                       Inl e \<Rightarrow> Inl e
                     | Inr b \<Rightarrow>
                         if b
                         then get_vehicles_in_direction_loop w direction exclude rs
                                (return_vehicles @ [r])
                         else get_vehicles_in_direction_loop w direction exclude rs
                                return_vehicles))))"

definition get_vehicles_in_direction ::
  "world \<Rightarrow> string list \<Rightarrow> pyval list \<Rightarrow> error + nat list" where
  "get_vehicles_in_direction w direction exclude =
     get_vehicles_in_direction_loop w direction exclude (VEHICLES w) []"


section \<open>Vehicle mutators (\<open>traffic_objects.py\<close>)\<close>

definition set_target_speed :: "nat \<Rightarrow> real \<Rightarrow> world \<Rightarrow> world" where
  "set_target_speed r s w = w\<lparr>heap := (heap w)(r := (heap w r)\<lparr>target_speed := s\<rparr>)\<rparr>"

text \<open>\<open>vehicle.set_speed\<close>: refused when the speed exceeds the vehicle's maximum speed.\<close>

definition set_speed :: "nat \<Rightarrow> real \<Rightarrow> world \<Rightarrow> (unit, world) outcome" where
  "set_speed r s w =
     (let max_speed = get_max_speed w r in
      if max_speed < s then Err TrafficObjectsError w
      else Ok () (set_target_speed r s (issue (SetSpeed (vehicle_id w r) s) w)))"

text \<open>
  \<open>vehicle.set_max_speed\<close>: refused when the new maximum is below the speed the engine
  reports for the vehicle.
\<close>

definition set_max_speed :: "nat \<Rightarrow> real \<Rightarrow> world \<Rightarrow> (unit, world) outcome" where
  "set_max_speed r m w =
     (let speed = get_speed w r in
      if m < speed then Err TrafficObjectsError w
      else Ok ()
        (issue (SetMaxSpeed (vehicle_id w r) m)
           (w\<lparr>eng := (eng w)\<lparr>veh_max_speed := (veh_max_speed (eng w))(vehicle_id w r := m)\<rparr>\<rparr>)))"


definition toggle_ensurance :: "nat \<Rightarrow> world \<Rightarrow> world" where
  "toggle_ensurance r w =
     w\<lparr>heap := (heap w)(r := (heap w r)\<lparr>ensurance_active := \<not> ensurance_active (heap w r)\<rparr>)\<rparr>"


text \<open>
  \<open>platoon_member.__del__\<close>, run when a member is dropped: the highlight is stopped, the
  maximum speed recorded at creation is set again, and a vehicle whose target speed is below
  1 is sent to speed 1.  An exception raised inside \<open>__del__\<close> ends it there and is then
  ignored by Python, so the state a drop leaves is \<open>state_of\<close> of this outcome.
\<close>

definition platoon_member_del :: "platoon_member \<Rightarrow> world \<Rightarrow> (unit, world) outcome" where
  "platoon_member_del self w =
     (let w1 = stop_highlight (member_v self) w in
      case set_max_speed (member_v self) (original_max_speed self) w1 of
        Err e w2 \<Rightarrow> Err e w2
      | Ok u w2 \<Rightarrow>
          if target_speed (heap w2 (member_v self)) < 1 then set_speed (member_v self) 1 w2
          else Ok () w2)"

text \<open>The requests to set a speed among a list of engine calls.\<close>

fun is_set_speed :: "call \<Rightarrow> bool" where
  "is_set_speed (SetSpeed i s) = True"
| "is_set_speed c = False"

definition speed_commands :: "world \<Rightarrow> call list" where
  "speed_commands w = filter is_set_speed (calls (eng w))"


section \<open>Platoon propagation (\<open>traffic_objects.py\<close>)\<close>

text \<open>\<open>list.pop(i)\<close> for an index in range.\<close>

definition list_pop :: "'a list \<Rightarrow> nat \<Rightarrow> 'a list" where
  "list_pop xs i = take i xs @ drop (Suc i) xs"

text \<open>
  \<open>platoon_member.get_vehicles_in_radius\<close>: the indices of the pool's vehicles within the
  radius are collected in ascending order together with the vehicles, then popped from the
  pool from the highest index down.
\<close>

definition in_radius :: "world \<Rightarrow> nat \<Rightarrow> real \<Rightarrow> nat \<Rightarrow> bool" where
  "in_radius w self rad r \<longleftrightarrow>
     distance (get_coordinates w self) (get_coordinates w r) \<le> rad"

definition get_vehicles_in_radius :: "nat \<Rightarrow> real \<Rightarrow> world \<Rightarrow> nat list \<times> world" where
  "get_vehicles_in_radius self rad w =
     (let ids = filter (\<lambda>i. in_radius w self rad (search_vehicles w ! i))
                  [0..<length (search_vehicles w)];
          gathered_vehicles = map (\<lambda>i. search_vehicles w ! i) ids
      in (gathered_vehicles,
          w\<lparr>search_vehicles := foldl list_pop (search_vehicles w) (rev ids)\<rparr>))"

text \<open>\<open>platoon.increment\<close> and \<open>platoon.add_vehicle\<close> (static methods).\<close>

definition increment :: "world \<Rightarrow> world" where
  "increment w = w\<lparr>platoon_size := platoon_size w + 1\<rparr>"

definition platoon_add_vehicle :: "nat \<Rightarrow> world \<Rightarrow> world" where
  "platoon_add_vehicle r w = w\<lparr>platoon_members := platoon_members w @ [r]\<rparr>"

text \<open>The constructor of \<open>platoon_member\<close>.\<close>

definition new_platoon_member :: "world \<Rightarrow> nat \<Rightarrow> platoon_member" where
  "new_platoon_member w r = platoon_member r [] (get_max_speed w r)"

text \<open>
  The first loop of \<open>platoon_member.propagate\<close>, over the vehicles found in the radius:
  a vehicle with the member's own id is skipped, every other one is counted, listed,
  highlighted and attached as a new child.
\<close>

fun attach_loop ::
  "nat \<Rightarrow> nat list \<Rightarrow> platoon_member list \<Rightarrow> world \<Rightarrow> platoon_member list \<times> world" where
  "attach_loop self [] ms w = (ms, w)"
| "attach_loop self (r # rs) ms w =
     (if vehicle_id w r = vehicle_id w self then attach_loop self rs ms w
      else
        (let w1 = increment w;
             w2 = platoon_add_vehicle r w1;
             w3 = highlight r (HlColor 0 255 0 255) w2
         in attach_loop self rs (ms @ [new_platoon_member w3 r]) w3))"

text \<open>
  Discarding members.  When the last reference to a member goes, CPython runs its
  \<open>__del__\<close> and then releases its attributes, among them the list of its children; a
  list releases its elements from the last to the first.  An exception raised in
  \<open>__del__\<close> is ignored, so the state that \<open>platoon_member_del\<close> has reached counts.
\<close>

fun discard_member :: "platoon_member \<Rightarrow> world \<Rightarrow> world"
  and discard_members :: "platoon_member list \<Rightarrow> world \<Rightarrow> world" where
  "discard_member (platoon_member r ms om) w =
     discard_members ms (state_of (platoon_member_del (platoon_member r ms om) w))"
| "discard_members [] w = w"
| "discard_members (m # ms) w = discard_member m (discard_members ms w)"

text \<open>
  \<open>platoon_member.propagate\<close> and its second loop, which propagates each new child in
  turn on the pool the previous ones have left.  Assigning \<open>self.members_in_radius = []\<close>
  releases the list of the children of the previous pass, which discards them.
\<close>

function member_propagate :: "real \<Rightarrow> platoon_member \<Rightarrow> world \<Rightarrow> platoon_member \<times> world"
  and propagate_children ::
    "real \<Rightarrow> platoon_member list \<Rightarrow> world \<Rightarrow> platoon_member list \<times> world" where
  "member_propagate rad self w =
     (let w0 = discard_members (members_in_radius self) w;
          (vir, w1) = get_vehicles_in_radius (member_v self) rad w0;
          (ms, w2) = attach_loop (member_v self) vir [] w1;
          (ms', w3) = propagate_children rad ms w2
      in (platoon_member (member_v self) ms' (original_max_speed self), w3))"
| "propagate_children rad [] w = ([], w)"
| "propagate_children rad (m # ms) w =
     (let (m', w1) = member_propagate rad m w;
          (ms', w2) = propagate_children rad ms w1
      in (m' # ms', w2))"
  by pat_completeness auto


lemma list_pop_append: "i < length xs \<Longrightarrow> list_pop (xs @ ys) i = list_pop xs i @ ys"
  by (simp add: list_pop_def)

lemma length_list_pop: "i < length xs \<Longrightarrow> length (list_pop xs i) = length xs - 1"
  by (simp add: list_pop_def)

lemma foldl_list_pop_append:
  "sorted_wrt (>) is \<Longrightarrow> \<forall>i\<in>set is. i < length xs \<Longrightarrow>
   foldl list_pop (xs @ ys) is = foldl list_pop xs is @ ys"
proof (induction "is" arbitrary: xs)
  case Nil
  then show ?case by simp
next
  case (Cons i "is")
  have "\<forall>j\<in>set is. j < length (list_pop xs i)"
    using Cons.prems by (auto simp: length_list_pop)
  then show ?case using Cons by (simp add: list_pop_append)
qed

lemma list_pop_last: "list_pop (xs @ [x]) (length xs) = xs"
  by (simp add: list_pop_def)

lemma filter_upt_snoc:
  "filter (\<lambda>i. P ((xs @ [x]) ! i)) [0..<length xs] = filter (\<lambda>i. P (xs ! i)) [0..<length xs]"
  by (rule filter_cong) (auto simp: nth_append)

lemma foldl_list_pop_filter:
  "foldl list_pop xs (rev (filter (\<lambda>i. P (xs ! i)) [0..<length xs])) = filter (\<lambda>x. \<not> P x) xs"
proof (induction xs rule: rev_induct)
  case Nil
  then show ?case by simp
next
  case (snoc x xs)
  let ?A = "filter (\<lambda>i. P (xs ! i)) [0..<length xs]"
  have srt: "sorted_wrt (>) (rev ?A)"
    by (simp add: sorted_wrt_rev sorted_wrt_filter)
  have bnd: "\<forall>i\<in>set (rev ?A). i < length xs" by auto
  show ?case
  proof (cases "P x")
    case True
    then show ?thesis using snoc by (simp add: filter_upt_snoc list_pop_last)
  next
    case False
    then show ?thesis
      using snoc foldl_list_pop_append [OF srt bnd, of "[x]"] by (simp add: filter_upt_snoc)
  qed
qed

lemma map_nth_filter_upt:
  "map (\<lambda>i. xs ! i) (filter (\<lambda>i. P (xs ! i)) [0..<length xs]) = filter P xs"
proof (induction xs rule: rev_induct)
  case Nil
  then show ?case by simp
next
  case (snoc x xs)
  have "map (\<lambda>i. (xs @ [x]) ! i) (filter (\<lambda>i. P (xs ! i)) [0..<length xs])
        = map (\<lambda>i. xs ! i) (filter (\<lambda>i. P (xs ! i)) [0..<length xs])"
    by (rule map_cong) (auto simp: nth_append)
  then show ?case using snoc by (simp add: filter_upt_snoc)
qed

lemma get_vehicles_in_radius_eq:
  "get_vehicles_in_radius self rad w =
     (filter (in_radius w self rad) (search_vehicles w),
      w\<lparr>search_vehicles := filter (\<lambda>r. \<not> in_radius w self rad r) (search_vehicles w)\<rparr>)"
  by (simp add: get_vehicles_in_radius_def Let_def foldl_list_pop_filter map_nth_filter_upt)

lemma attach_loop_pool:
  "search_vehicles (snd (attach_loop self vir ms w)) = search_vehicles w"
  by (induction self vir ms w rule: attach_loop.induct)
     (simp_all add: Let_def increment_def platoon_add_vehicle_def highlight_def issue_def)

lemma attach_loop_length:
  "length (fst (attach_loop self vir ms w)) \<le> length ms + length vir"
proof (induction self vir ms w rule: attach_loop.induct)
  case (1 self ms w)
  then show ?case by simp
next
  case (2 self r rs ms w)
  then show ?case by (auto simp: Let_def le_Suc_eq)
qed

lemma get_vehicles_in_radius_length:
  "get_vehicles_in_radius self rad w = (vir, w1) \<Longrightarrow>
   length vir + length (search_vehicles w1) = length (search_vehicles w)"
  by (auto simp: get_vehicles_in_radius_eq sum_length_filter_compl)

lemma platoon_member_del_pool:
  "search_vehicles (state_of (platoon_member_del m w)) = search_vehicles w"
  by (simp add: platoon_member_del_def set_max_speed_def set_speed_def set_target_speed_def
      stop_highlight_def highlight_def issue_def Let_def)

lemma discard_pool:
  "search_vehicles (discard_member m w) = search_vehicles w"
  "search_vehicles (discard_members ms w) = search_vehicles w"
  by (induction m w and ms w rule: discard_member_discard_members.induct)
     (simp_all add: platoon_member_del_pool)

lemma propagate_pool_shrinks:
  "member_propagate_propagate_children_dom (Inl (rad, self, w)) \<Longrightarrow>
     length (search_vehicles (snd (member_propagate rad self w))) \<le> length (search_vehicles w)"
  "member_propagate_propagate_children_dom (Inr (rad, ms, w)) \<Longrightarrow>
     length (search_vehicles (snd (propagate_children rad ms w))) \<le> length (search_vehicles w)"
proof (induction rad self w and rad ms w rule: member_propagate_propagate_children.pinduct)
  case (1 rad self w)
  let ?w0 = "discard_members (members_in_radius self) w"
  obtain vir w1 where g: "get_vehicles_in_radius (member_v self) rad ?w0 = (vir, w1)"
    by (cases "get_vehicles_in_radius (member_v self) rad ?w0")
  obtain ms w2 where a: "attach_loop (member_v self) vir [] w1 = (ms, w2)"
    by (cases "attach_loop (member_v self) vir [] w1")
  have p2: "search_vehicles w2 = search_vehicles w1"
    using attach_loop_pool [of "member_v self" vir "[]" w1] a by simp
  have "length (search_vehicles (snd (propagate_children rad ms w2))) \<le> length (search_vehicles w2)"
    using "1.IH" [OF refl g [symmetric] refl a [symmetric] refl] .
  moreover have "length (search_vehicles w1) \<le> length (search_vehicles w)"
    using get_vehicles_in_radius_length [OF g] by (simp add: discard_pool)
  ultimately show ?case
    using "1.hyps" g a p2 by (auto simp: member_propagate.psimps Let_def split: prod.splits)
next
  case (2 rad w)
  then show ?case by (simp add: propagate_children.psimps)
next
  case (3 rad m ms w)
  obtain m' w1 where g: "member_propagate rad m w = (m', w1)"
    by (cases "member_propagate rad m w")
  have a: "length (search_vehicles w1) \<le> length (search_vehicles w)"
    using "3.IH"(1) g by simp
  have "length (search_vehicles (snd (propagate_children rad ms w1))) \<le> length (search_vehicles w1)"
    using "3.IH"(2) [OF g [symmetric] refl] .
  then show ?case
    using "3.hyps" g a by (auto simp: propagate_children.psimps split: prod.splits)
qed

termination member_propagate
proof (relation "measure (\<lambda>x. case x of
          Inl (rad, self, w) \<Rightarrow> 2 * length (search_vehicles w) + 1
        | Inr (rad, ms, w) \<Rightarrow> 2 * length (search_vehicles w) + 2 * length ms)", goal_cases)
  case 1
  then show ?case by simp
next
  case (2 rad self w w0 x vir w1 xa ms w2)
  have p2: "search_vehicles w2 = search_vehicles w1"
    using attach_loop_pool [of "member_v self" vir "[]" w1] 2 by (metis snd_conv)
  have l: "length ms \<le> length vir"
    using attach_loop_length [of "member_v self" vir "[]" w1] 2
    by (metis fst_conv list.size(3) add_0)
  have "length vir + length (search_vehicles w1) = length (search_vehicles w0)"
    using get_vehicles_in_radius_length [of "member_v self" rad w0 vir w1] 2 by simp
  moreover have "search_vehicles w0 = search_vehicles w"
    using 2 by (simp add: discard_pool)
  ultimately show ?case using p2 l by simp
next
  case (3 rad m ms w)
  then show ?case by simp
next
  case (4 rad m ms w x m' w1)
  then have "length (search_vehicles w1) \<le> length (search_vehicles w)"
    using propagate_pool_shrinks(1) [of rad m w] by (metis snd_conv)
  then show ?case by simp
qed

text \<open>
  \<open>platoon.propagate\<close>: one propagation pass.  The counters are reset, the direction is
  the focal vehicle's remaining route, the pool is built with the focal vehicle object in
  \<open>exclude\<close>, and the focal member propagates with the platoon's radius.
\<close>

definition platoon_propagate :: "platoon \<Rightarrow> world \<Rightarrow> (platoon, world) outcome" where
  "platoon_propagate p w =
     (let fp = member_v (focal_point p);
          w1 = w\<lparr>platoon_size := 0, platoon_members := [fp]\<rparr>
      in case get_remaining_edges w1 fp of
           Inl e \<Rightarrow> Err e w1
         | Inr direction \<Rightarrow>
             (let w2 = highlight fp HlDefault w1
              in case get_vehicles_in_direction w2 direction [PyVehicle fp] of
                   Inl e \<Rightarrow> Err e w2
                 | Inr pool \<Rightarrow>
                     (let w3 = w2\<lparr>search_vehicles := pool\<rparr>;
                          (fp', w4) = member_propagate (radius p) (focal_point p) w3
                      in Ok (p\<lparr>focal_point := fp'\<rparr>) w4)))"

text \<open>\<open>platoon_member.get_propagation_members\<close> and \<open>platoon.get_members\<close>.\<close>

fun get_propagation_members :: "platoon_member \<Rightarrow> platoon_member list" where
  "get_propagation_members (platoon_member r ms om) =
     concat (map (\<lambda>m. m # get_propagation_members m) ms)"

definition get_members :: "platoon \<Rightarrow> platoon_member list" where
  "get_members p = get_propagation_members (focal_point p)"

text \<open>\<open>platoon.__iter__\<close>: the vehicles of the platoon, the focal one first.\<close>

definition platoon_iter :: "platoon \<Rightarrow> nat list" where
  "platoon_iter p = map member_v (focal_point p # get_members p)"

text \<open>The constructor of \<open>platoon\<close>; the radius defaults to 15 at the call in \<open>do_setp\<close>.\<close>

definition new_platoon :: "nat \<Rightarrow> bool \<Rightarrow> real \<Rightarrow> world \<Rightarrow> platoon \<times> world" where
  "new_platoon fp_vehicle fd rad w =
     (\<lparr>focal_point = new_platoon_member w fp_vehicle, focal_direction = fd, radius = rad\<rparr>,
      increment w)"


section \<open>Freezing the fleet while a vehicle enters (\<open>simulation_lib.py\<close>)\<close>

definition is_vehicle :: "world \<Rightarrow> string \<Rightarrow> bool" where
  "is_vehicle w v_id \<longleftrightarrow> v_id \<in> set (veh_id_list (eng w))"

text \<open>
  \<open>freeze_vehicles.__enter__\<close> over \<open>self.vehicles\<close>, filling \<open>self.vehicle_to_speed\<close>:
  each vehicle's target speed is stored under its id, then the vehicle is set to speed 1.
\<close>

fun freeze_enter ::
  "nat list \<Rightarrow> (string \<rightharpoonup> real) \<Rightarrow> world \<Rightarrow> (string \<rightharpoonup> real, world) outcome" where
  "freeze_enter [] vehicle_to_speed w = Ok vehicle_to_speed w"
| "freeze_enter (r # rs) vehicle_to_speed w =
     (let vehicle_to_speed' = vehicle_to_speed(vehicle_id w r \<mapsto> target_speed (heap w r)) in
      case set_speed r 1 w of
        Err e w' \<Rightarrow> Err e w'
      | Ok u w' \<Rightarrow> freeze_enter rs vehicle_to_speed' w')"

text \<open>\<open>freeze_vehicles.__exit__\<close>: each vehicle is set to the speed stored under its id.\<close>

fun freeze_exit :: "nat list \<Rightarrow> (string \<rightharpoonup> real) \<Rightarrow> world \<Rightarrow> (unit, world) outcome" where
  "freeze_exit [] vehicle_to_speed w = Ok () w"
| "freeze_exit (r # rs) vehicle_to_speed w =
     (case vehicle_to_speed (vehicle_id w r) of
        None \<Rightarrow> Err KeyError w
      | Some original_speed \<Rightarrow>
          (case set_speed r original_speed w of
             Err e w' \<Rightarrow> Err e w'
           | Ok u w' \<Rightarrow> freeze_exit rs vehicle_to_speed w'))"

text \<open>
  The loop of \<open>wait_for_vehicle\<close>.  \<open>step\<close> is \<open>traci.simulationStep\<close>; the loop may run
  for ever, so it is given fuel, and \<open>None\<close> means that the fuel did not suffice.
\<close>

fun wait_loop ::
  "nat \<Rightarrow> (world \<Rightarrow> (unit, world) outcome) \<Rightarrow> string \<Rightarrow> world \<Rightarrow> (unit, world) outcome option"
  where
  "wait_loop 0 step v_id w = None"
| "wait_loop (Suc n) step v_id w =
     (if is_vehicle w v_id then Some (Ok () w)
      else
        (case step w of
           Err e w' \<Rightarrow> Some (Err e w')
         | Ok u w' \<Rightarrow> wait_loop n step v_id w'))"

text \<open>
  \<open>wait_for_vehicle\<close>: the \<open>with freeze_vehicles():\<close> statement around the loop.  The
  freeze object copies \<open>sg.VEHICLES\<close> when it is created.  \<open>__exit__\<close> runs when the body
  ends or raises, not when \<open>__enter__\<close> raises; it returns \<open>None\<close>, so an error of the
  body is raised again after it, unless \<open>__exit__\<close> raises itself.
\<close>

definition wait_for_vehicle ::
  "nat \<Rightarrow> (world \<Rightarrow> (unit, world) outcome) \<Rightarrow> string \<Rightarrow> world \<Rightarrow> (unit, world) outcome option"
  where
  "wait_for_vehicle n step v_id w =
     (let vehicles = VEHICLES w in
      case freeze_enter vehicles Map.empty w of
        Err e w1 \<Rightarrow> Some (Err e w1)
      | Ok vehicle_to_speed w1 \<Rightarrow>
          (case wait_loop n step v_id w1 of
             None \<Rightarrow> None
           | Some (Ok u w2) \<Rightarrow> Some (freeze_exit vehicles vehicle_to_speed w2)
           | Some (Err e w2) \<Rightarrow>
               (case freeze_exit vehicles vehicle_to_speed w2 of
                  Ok u w3 \<Rightarrow> Some (Err e w3)
                | Err e' w3 \<Rightarrow> Some (Err e' w3))))"


section \<open>The command path (\<open>client.py\<close>)\<close>

text \<open>
  The attributes of \<open>traffic_client\<close> the modelled commands use.  \<open>block\<close> is the event
  \<open>action_event\<close> the stepping loop waits for, \<open>blocker\<close> is \<open>step_event\<close>, which the
  stepping loop clears while a step is in flight; each is modelled by its flag.
\<close>

record client =
  last_line :: string
  pause :: bool
  block :: bool
  blocker :: bool
  default_max_speed :: real
  default_speed :: real

text \<open>\<open>str.split(sep)\<close> for a separator of one character.\<close>

fun split_on :: "char \<Rightarrow> string \<Rightarrow> string list" where
  "split_on sep [] = [[]]"
| "split_on sep (x # xs) =
     (if x = sep then [] # split_on sep xs
      else (case split_on sep xs of
              [] \<Rightarrow> [[x]]
            | word # words \<Rightarrow> (x # word) # words))"

text \<open>\<open>get_args\<close>; the messages of the errors are abridged.\<close>

definition get_args :: "client \<Rightarrow> nat \<Rightarrow> error + string list" where
  "get_args c mandatory =
     (let args = split_on CHR '' '' (last_line c) in
      if mandatory > 0 \<and> length args - 1 < mandatory
      then Inl (ClientError ''Not enough arguments provided'')
      else if length args = 1 then Inr [] else Inr (tl args))"

text \<open>\<open>simulation_lib.get_vehicle\<close> and \<open>traffic_client.get_vehicles\<close>.\<close>

definition get_vehicle :: "world \<Rightarrow> string \<Rightarrow> error + nat" where
  "get_vehicle w v_id =
     (case ID_TO_VEHICLE w v_id of
        None \<Rightarrow> Inl SimulationLibError
      | Some r \<Rightarrow> Inr r)"

fun get_vehicles :: "world \<Rightarrow> string list \<Rightarrow> error + nat list" where
  "get_vehicles w [] = Inr []"
| "get_vehicles w (v_id # v_ids) =
     (case get_vehicle w v_id of
        Inl e \<Rightarrow> Inl e
      | Inr r \<Rightarrow> (case get_vehicles w v_ids of Inl e \<Rightarrow> Inl e | Inr rs \<Rightarrow> Inr (r # rs)))"

text \<open>A loop \<open>for v in vehicles: v.op(...)\<close>, which the first error ends.\<close>

fun for_each ::
  "(nat \<Rightarrow> world \<Rightarrow> (unit, world) outcome) \<Rightarrow> nat list \<Rightarrow> world \<Rightarrow> (unit, world) outcome" where
  "for_each op [] w = Ok () w"
| "for_each op (r # rs) w =
     (case op r w of
        Err e w' \<Rightarrow> Err e w'
      | Ok u w' \<Rightarrow> for_each op rs w')"

text \<open>
  \<open>do_speed\<close>.  \<open>float_of\<close> is Python's \<open>float\<close> on a string, \<open>None\<close> where it raises
  \<open>ValueError\<close>.  \<open>args[0]\<close> exists, since \<open>get_args\<close> has checked the mandatory argument.
\<close>

definition do_speed ::
  "(string \<Rightarrow> real option) \<Rightarrow> client \<Rightarrow> world \<Rightarrow> (unit, world) outcome" where
  "do_speed float_of c w =
     (let mandatory = 1 in
      case get_args c mandatory of
        Inl e \<Rightarrow> Err e w
      | Inr args \<Rightarrow>
          (case args of
             [] \<Rightarrow> Err IndexError w
           | a # rest \<Rightarrow>
               (case float_of a of
                  None \<Rightarrow> Err (ClientError ''Cannot change speed, not a number'') w
                | Some speed \<Rightarrow>
                    (case (if length args = mandatory then Inr (VEHICLES w)
                           else get_vehicles w (drop mandatory args)) of
                       Inl e \<Rightarrow> Err e w
                     | Inr vehicles \<Rightarrow> for_each (\<lambda>r. set_speed r speed) vehicles w))))"

text \<open>\<open>do_pause\<close> and \<open>do_resume\<close>.\<close>

definition do_pause :: "client \<Rightarrow> client" where
  "do_pause c = c\<lparr>block := False, pause := True\<rparr>"

definition do_resume :: "client \<Rightarrow> client" where
  "do_resume c = c\<lparr>block := True, pause := False\<rparr>"

text \<open>
  \<open>traffic_client.onecmd\<close>.  \<open>dispatch\<close> is \<open>cmd.Cmd.onecmd\<close>, which runs the \<open>do_\<close>
  method the line names, on the client and the process-wide state.  \<open>self.blocker.wait()\<close>
  returns once \<open>step_event\<close> is set; until then the command path is suspended, which is the
  result \<open>None\<close> here.  The first handler compares the exception object with the string
  \<open>"0"\<close> to decide whether to raise it again; both handlers print the error and return.
\<close>

definition onecmd ::
  "(string \<Rightarrow> client \<times> world \<Rightarrow> (unit, client \<times> world) outcome) \<Rightarrow> string \<Rightarrow>
   client \<times> world \<Rightarrow> (unit, client \<times> world) outcome option" where
  "onecmd dispatch line cw =
     (let c1 = (fst cw)\<lparr>last_line := line\<rparr>;
          c2 = (if \<not> pause c1 then c1\<lparr>block := False\<rparr> else c1)
      in if \<not> blocker c2 then None
         else
           (case dispatch line (c2, snd cw) of
              Ok u (c3, w3) \<Rightarrow>
                Some (Ok () (if \<not> pause c3 then c3\<lparr>block := True\<rparr> else c3, w3))
            | Err e cw3 \<Rightarrow>
                (case e of
                   ClientError msg \<Rightarrow>
                     if PyException e = PyStr ''0'' then Some (Err e cw3)
                     else Some (Ok () cw3)
                 | _ \<Rightarrow> Some (Ok () cw3))))"

text \<open>A command that works on the process-wide state only, as \<open>dispatch\<close> runs it.\<close>

definition on_world ::
  "(client \<Rightarrow> world \<Rightarrow> (unit, world) outcome) \<Rightarrow> client \<times> world \<Rightarrow>
   (unit, client \<times> world) outcome" where
  "on_world command cw =
     (case command (fst cw) (snd cw) of
        Ok u w' \<Rightarrow> Ok () (fst cw, w')
      | Err e w' \<Rightarrow> Err e (fst cw, w'))"


section \<open>The vehicle registry and the simulation step\<close>










text \<open>The decimal numeral of a natural number, as an f-string prints it.\<close>

definition digit_char :: "nat \<Rightarrow> char" where
  "digit_char d = char_of (48 + d)"

function show_nat :: "nat \<Rightarrow> string" where
  "show_nat n = (if n < 10 then [digit_char n] else show_nat (n div 10) @ [digit_char (n mod 10)])"
  by pat_completeness auto
termination
  by (relation "measure (\<lambda>n. n)") auto

declare show_nat.simps [simp del]








section \<open>A worked scenario\<close>

text \<open>
  The scenario of the specification: focal vehicle \<open>F\<close> on \<open>E1\<close> with route
  \<open>[E1, E2, E3]\<close>, \<open>A\<close> on \<open>E2\<close> at distance 5, \<open>B\<close> on \<open>E5\<close> at distance 3,
  radius 10.  A fourth vehicle \<open>C\<close>, used further below, is on \<open>E0\<close> with route
  \<open>[E0, E2, E3]\<close>; it is not registered in \<open>scenario_world\<close>.
\<close>

definition scenario_engine :: engine where
  "scenario_engine =
     \<lparr>veh_id_list = [''F'', ''A'', ''B''],
      veh_position =
        (\<lambda>i. if i = ''F'' then (0, 0) else if i = ''A'' then (3, 4)
             else if i = ''B'' then (0, 3) else (100, 0)),
      veh_route =
        (\<lambda>i. if i = ''B'' then [''E4'', ''E5'', ''E6'']
             else if i = ''C'' then [''E0'', ''E2'', ''E3'']
             else [''E1'', ''E2'', ''E3'']),
      veh_road_id =
        (\<lambda>i. if i = ''F'' then ''E1'' else if i = ''A'' then ''E2''
             else if i = ''B'' then ''E5'' else ''E0''),
      veh_speed = (\<lambda>i. 8),
      veh_max_speed = (\<lambda>i. 30),
      route_ids = [''r0''],
      route_edges = (\<lambda>i. [''E1'', ''E2'', ''E3'']),
      edge_ids = [''E0'', ''E1'', ''E2'', ''E3'', ''E4'', ''E5'', ''E6''],
      calls = []\<rparr>"

definition scenario_vehicle :: "string \<Rightarrow> string \<Rightarrow> vehicle" where
  "scenario_vehicle i e =
     \<lparr>vid = i, init_route = ''r0'', curr_edge = e, target_edge = ''E3'', target_speed = 8,
      ensurance_active = True\<rparr>"

definition scenario_heap :: "nat \<Rightarrow> vehicle" where
  "scenario_heap r =
     (if r = 0 then scenario_vehicle ''F'' ''E1''
      else if r = 1 then scenario_vehicle ''A'' ''E2''
      else if r = 2 then scenario_vehicle ''B'' ''E5''
      else scenario_vehicle ''C'' ''E0'')"

definition scenario_world :: world where
  "scenario_world =
     \<lparr>eng = scenario_engine, heap = scenario_heap, VEHICLES = [0, 1, 2],
      ID_TO_VEHICLE = [''F'' \<mapsto> 0, ''A'' \<mapsto> 1, ''B'' \<mapsto> 2],
      PLATOON = None, EXIT = False, latest_id = 3, search_vehicles = [],
      platoon_size = 1, platoon_members = []\<rparr>"

definition scenario_platoon :: platoon where
  "scenario_platoon =
     \<lparr>focal_point = platoon_member 0 [] 30, focal_direction = True, radius = 10\<rparr>"

fun result_of :: "('a, 's) outcome \<Rightarrow> 'a option" where
  "result_of (Ok a s) = Some a"
| "result_of (Err e s) = None"


text \<open>The scenario with \<open>C\<close> registered as well.\<close>

definition crossing_world :: world where
  "crossing_world = scenario_world\<lparr>VEHICLES := [0, 1, 2, 3]\<rparr>"

text \<open>
  Later states of the scenario: every maximum speed raised to 50 (\<open>raised_world\<close>), and in
  addition every vehicle driving at 40 (\<open>fast_world\<close>); \<open>A\<close> with target speed 0.5, in
  the original scenario (\<open>crawling_world\<close>) and in \<open>fast_world\<close> (\<open>slow_world\<close>).
\<close>

definition fast_world :: world where
  "fast_world =
     scenario_world\<lparr>eng := scenario_engine\<lparr>veh_speed := (\<lambda>i. 40), veh_max_speed := (\<lambda>i. 50)\<rparr>\<rparr>"

definition raised_world :: world where
  "raised_world = scenario_world\<lparr>eng := scenario_engine\<lparr>veh_max_speed := (\<lambda>i. 50)\<rparr>\<rparr>"



text \<open>
  The scenario with the maximum speed of \<open>A\<close> lowered to 5, a client that is not paused
  while no step is in flight, and a stand-in for \<open>float\<close> that reads the one numeral the
  examples use.
\<close>

definition limited_world :: world where
  "limited_world =
     scenario_world\<lparr>eng := scenario_engine\<lparr>veh_max_speed := (\<lambda>i. if i = ''A'' then 5 else 30)\<rparr>\<rparr>"

definition shell :: client where
  "shell =
     \<lparr>last_line = [], pause = False, block = True, blocker = True,
      default_max_speed = 30, default_speed = 8\<rparr>"

definition float_of_7 :: "string \<Rightarrow> real option" where
  "float_of_7 s = (if s = ''7'' then Some 7 else None)"

text \<open>The client a call of \<open>onecmd\<close> leaves, whether it returns or raises.\<close>

fun client_after :: "(unit, client \<times> world) outcome option \<Rightarrow> client option" where
  "client_after None = None"
| "client_after (Some (Ok u cw)) = Some (fst cw)"
| "client_after (Some (Err e cw)) = Some (fst cw)"

text \<open>
  For the injection of a vehicle \<open>N\<close>: the scenario after \<open>speed 8\<close> and then
  \<open>max_speed 5 A\<close>, issued while every vehicle drives at 4 (\<open>capped_world\<close>); a simulation
  step that raises, and one with which \<open>N\<close> appears; and the target speeds of \<open>F\<close>,
  \<open>A\<close> and \<open>B\<close> that \<open>wait_for_vehicle\<close> leaves.
\<close>

definition capped_world :: world where
  "capped_world =
     scenario_world\<lparr>eng := scenario_engine
       \<lparr>veh_speed := (\<lambda>i. 4), veh_max_speed := (\<lambda>i. if i = ''A'' then 5 else 30)\<rparr>\<rparr>"

definition failing_step :: "world \<Rightarrow> (unit, world) outcome" where
  "failing_step w = Err EngineError w"

definition arriving_step :: "world \<Rightarrow> (unit, world) outcome" where
  "arriving_step w = Ok () (w\<lparr>eng := (eng w)\<lparr>veh_id_list := veh_id_list (eng w) @ [''N'']\<rparr>\<rparr>)"

definition arrived :: "world \<Rightarrow> world" where
  "arrived w = state_of (arriving_step w)"

definition speeds_after :: "(unit, world) outcome option \<Rightarrow> real list option" where
  "speeds_after res =
     map_option (\<lambda>out. map (\<lambda>r. target_speed (heap (state_of out) r)) [0, 1, 2]) res"




section \<open>What one propagation pass computes\<close>

text \<open>
  \<open>claimed_by\<close> is the filter the first loop of \<open>propagate\<close> applies to the vehicles
  found in the radius; \<open>same_static\<close> relates two states that agree on everything
  propagation reads of the vehicles (their ids and positions) and on the registry;
  \<open>member_vehicles\<close> lists the vehicles below a member.
\<close>


definition claimed_by :: "world \<Rightarrow> nat \<Rightarrow> nat list \<Rightarrow> nat list" where
  "claimed_by w self vir = filter (\<lambda>r. vehicle_id w r \<noteq> vehicle_id w self) vir"

definition same_static :: "world \<Rightarrow> world \<Rightarrow> bool" where
  "same_static w w' \<longleftrightarrow>
     vehicle_id w' = vehicle_id w \<and> VEHICLES w' = VEHICLES w \<and>
     ID_TO_VEHICLE w' = ID_TO_VEHICLE w \<and> latest_id w' = latest_id w \<and>
     PLATOON w' = PLATOON w \<and> EXIT w' = EXIT w \<and>
     veh_id_list (eng w') = veh_id_list (eng w) \<and>
     veh_position (eng w') = veh_position (eng w)"

lemma same_static_refl: "same_static w w"
  by (simp add: same_static_def)

lemma same_static_trans: "same_static w w1 \<Longrightarrow> same_static w1 w2 \<Longrightarrow> same_static w w2"
  by (simp add: same_static_def)

lemma same_static_vehicle_id: "same_static w w' \<Longrightarrow> vehicle_id w' = vehicle_id w"
  by (simp add: same_static_def)

lemma same_static_in_radius: "same_static w w' \<Longrightarrow> in_radius w' = in_radius w"
  by (simp add: same_static_def in_radius_def get_coordinates_def fun_eq_iff)

lemma same_static_claimed_by: "same_static w w' \<Longrightarrow> claimed_by w' = claimed_by w"
  by (simp add: same_static_def claimed_by_def fun_eq_iff)

lemma attach_step_static:
  "same_static w (highlight r c (platoon_add_vehicle r (increment w)))"
  by (simp add: same_static_def highlight_def issue_def platoon_add_vehicle_def increment_def
      vehicle_id_def fun_eq_iff)

lemma platoon_member_del_static:
  "same_static w (state_of (platoon_member_del m w))"
  "platoon_members (state_of (platoon_member_del m w)) = platoon_members w"
  "platoon_size (state_of (platoon_member_del m w)) = platoon_size w"
  by (simp_all add: same_static_def platoon_member_del_def set_max_speed_def set_speed_def
      set_target_speed_def stop_highlight_def highlight_def issue_def Let_def vehicle_id_def
      fun_eq_iff)

lemma discard_static:
  "same_static w (discard_member m w) \<and>
   platoon_members (discard_member m w) = platoon_members w \<and>
   platoon_size (discard_member m w) = platoon_size w"
  "same_static w (discard_members ms w) \<and>
   platoon_members (discard_members ms w) = platoon_members w \<and>
   platoon_size (discard_members ms w) = platoon_size w"
proof (induction m w and ms w rule: discard_member_discard_members.induct)
  case (1 r ms om w)
  let ?w1 = "state_of (platoon_member_del (platoon_member r ms om) w)"
  have "same_static w ?w1" by (rule platoon_member_del_static)
  moreover have "same_static ?w1 (discard_members ms ?w1)" using 1 by blast
  ultimately have "same_static w (discard_members ms ?w1)" by (rule same_static_trans)
  then show ?case using 1 by (simp add: platoon_member_del_static)
next
  case (2 w)
  then show ?case by (simp add: same_static_refl)
next
  case (3 m ms w)
  let ?w1 = "discard_members ms w"
  have "same_static w ?w1" using 3 by blast
  moreover have "same_static ?w1 (discard_member m ?w1)" using 3 by blast
  ultimately have "same_static w (discard_member m ?w1)" by (rule same_static_trans)
  then show ?case using 3 by simp
qed

lemma attach_loop_char:
  "attach_loop self vir ms w = (ms', w') \<Longrightarrow>
     map member_v ms' = map member_v ms @ claimed_by w self vir \<and>
     same_static w w' \<and>
     search_vehicles w' = search_vehicles w \<and>
     platoon_members w' = platoon_members w @ claimed_by w self vir \<and>
     platoon_size w' = platoon_size w + length (claimed_by w self vir)"
proof (induction self vir ms w arbitrary: ms' w' rule: attach_loop.induct)
  case (1 self ms w)
  then show ?case by (simp add: claimed_by_def same_static_refl)
next
  case (2 self r rs ms w)
  show ?case
  proof (cases "vehicle_id w r = vehicle_id w self")
    case True
    then show ?thesis using 2 by (simp add: claimed_by_def)
  next
    case False
    let ?w3 = "highlight r (HlColor 0 255 0 255) (platoon_add_vehicle r (increment w))"
    have st: "same_static w ?w3" by (rule attach_step_static)
    have run: "attach_loop self rs (ms @ [new_platoon_member ?w3 r]) ?w3 = (ms', w')"
      using "2.prems" False by (simp add: Let_def)
    have cl: "claimed_by ?w3 self rs = claimed_by w self rs"
      by (simp add: claimed_by_def same_static_vehicle_id [OF st])
    have flds: "search_vehicles ?w3 = search_vehicles w"
      "platoon_members ?w3 = platoon_members w @ [r]"
      "platoon_size ?w3 = platoon_size w + 1"
      by (simp_all add: highlight_def issue_def platoon_add_vehicle_def increment_def)
    from "2.IH"(2) [OF False refl refl refl run]
    show ?thesis
      using False st cl flds
      by (auto simp: claimed_by_def new_platoon_member_def intro: same_static_trans)
  qed
qed

definition member_vehicles :: "platoon_member \<Rightarrow> nat list" where
  "member_vehicles t = map member_v (get_propagation_members t)"

lemma mset_member_vehicles:
  "mset (member_vehicles (platoon_member r ts om)) =
     mset (map member_v ts) + mset (concat (map member_vehicles ts))"
  by (induction ts) (simp_all add: member_vehicles_def)

lemma length_member_vehicles:
  "length (member_vehicles (platoon_member r ts om)) =
     length ts + length (concat (map member_vehicles ts))"
  by (induction ts) (simp_all add: member_vehicles_def)

lemma mset_claimed_by: "mset (claimed_by w self vir) \<subseteq># mset vir"
  by (simp add: claimed_by_def)

lemma propagate_char:
  "member_propagate rad self w = (t, w') \<Longrightarrow>
     member_v t = member_v self \<and>
     original_max_speed t = original_max_speed self \<and>
     same_static w w' \<and>
     map member_v (members_in_radius t) =
       claimed_by w (member_v self) (filter (in_radius w (member_v self) rad) (search_vehicles w)) \<and>
     mset (platoon_members w') = mset (platoon_members w) + mset (member_vehicles t) \<and>
     platoon_size w' = platoon_size w + length (member_vehicles t) \<and>
     mset (member_vehicles t) + mset (search_vehicles w') \<subseteq># mset (search_vehicles w)"
  "propagate_children rad ms w = (ts, w') \<Longrightarrow>
     map member_v ts = map member_v ms \<and>
     same_static w w' \<and>
     mset (platoon_members w') =
       mset (platoon_members w) + mset (concat (map member_vehicles ts)) \<and>
     platoon_size w' = platoon_size w + length (concat (map member_vehicles ts)) \<and>
     mset (concat (map member_vehicles ts)) + mset (search_vehicles w') \<subseteq># mset (search_vehicles w)"
proof (induction rad self w and rad ms w arbitrary: t w' and ts w'
       rule: member_propagate_propagate_children.induct)
  case (1 rad self w)
  let ?self = "member_v self"
  let ?w0 = "discard_members (members_in_radius self) w"
  note D = discard_static(2) [of w "members_in_radius self"]
  have st0: "same_static w ?w0" using D by blast
  have p0: "search_vehicles ?w0 = search_vehicles w" by (rule discard_pool)
  have r0: "in_radius ?w0 = in_radius w" using st0 by (rule same_static_in_radius)
  let ?vir = "filter (in_radius w ?self rad) (search_vehicles w)"
  let ?w1 = "?w0\<lparr>search_vehicles := filter (\<lambda>r. \<not> in_radius w ?self rad r) (search_vehicles w)\<rparr>"
  have g: "get_vehicles_in_radius ?self rad ?w0 = (?vir, ?w1)"
    by (simp only: get_vehicles_in_radius_eq r0 p0)
  obtain ms w2 where a: "attach_loop ?self ?vir [] ?w1 = (ms, w2)"
    by (cases "attach_loop ?self ?vir [] ?w1")
  obtain ts w3 where c: "propagate_children rad ms w2 = (ts, w3)"
    by (cases "propagate_children rad ms w2")
  have res: "t = platoon_member ?self ts (original_max_speed self)" "w' = w3"
    using "1.prems" g a c by (simp_all add: Let_def)
  have "same_static ?w0 ?w1" by (simp add: same_static_def vehicle_id_def fun_eq_iff)
  with st0 have st1: "same_static w ?w1" by (rule same_static_trans)
  have cb: "claimed_by ?w1 ?self ?vir = claimed_by w ?self ?vir"
    using same_static_claimed_by [OF st1] by simp
  have f1: "platoon_members ?w1 = platoon_members w" "platoon_size ?w1 = platoon_size w"
    "search_vehicles ?w1 = filter (\<lambda>r. \<not> in_radius w ?self rad r) (search_vehicles w)"
    using D by simp_all
  note A = attach_loop_char [OF a, unfolded cb f1]
  note C = "1.IH" [OF refl g [symmetric] refl a [symmetric] refl c]
  have st: "same_static w w3"
    using st1 A C by (blast intro: same_static_trans)
  have kids: "map member_v ts = claimed_by w ?self ?vir"
    using A C by simp
  have pm: "mset (platoon_members w3) = mset (platoon_members w) + mset (member_vehicles t)"
    using A C kids by (simp add: res mset_member_vehicles)
  have sz: "platoon_size w3 = platoon_size w + length (member_vehicles t)"
    using A C kids [symmetric] by (simp add: res length_member_vehicles del: length_map) (metis length_map)
  have rest: "mset (concat (map member_vehicles ts)) + mset (search_vehicles w3)
          \<subseteq># mset (filter (\<lambda>r. \<not> in_radius w ?self rad r) (search_vehicles w))"
    using A C by simp
  have "mset (claimed_by w ?self ?vir) \<subseteq># mset ?vir"
    by (rule mset_claimed_by)
  from this rest have "mset (claimed_by w ?self ?vir) + (mset (concat (map member_vehicles ts))
       + mset (search_vehicles w3))
        \<subseteq># mset ?vir + mset (filter (\<lambda>r. \<not> in_radius w ?self rad r) (search_vehicles w))"
    by (rule subset_mset.add_mono)
  then have pool: "mset (member_vehicles t) + mset (search_vehicles w3) \<subseteq># mset (search_vehicles w)"
    using kids by (simp add: res mset_member_vehicles add.assoc)
  show ?case using st kids pm sz pool by (simp add: res)
next
  case (2 rad w)
  then show ?case by (simp add: same_static_refl)
next
  case (3 rad m ms w)
  obtain m' w1 where g: "member_propagate rad m w = (m', w1)"
    by (cases "member_propagate rad m w")
  obtain ms' w2 where c: "propagate_children rad ms w1 = (ms', w2)"
    by (cases "propagate_children rad ms w1")
  have res: "ts = m' # ms'" "w' = w2"
    using "3.prems" g c by (simp_all add: Let_def)
  note M = "3.IH"(1) [OF g]
  note C = "3.IH"(2) [OF g [symmetric] refl c]
  have st: "same_static w w2" using M C by (blast intro: same_static_trans)
  have "mset (member_vehicles m') + (mset (concat (map member_vehicles ms')) + mset (search_vehicles w2))
       \<subseteq># mset (member_vehicles m') + mset (search_vehicles w1)"
    using C by simp
  also have "\<dots> \<subseteq># mset (search_vehicles w)" using M by simp
  finally have pool: "mset (concat (map member_vehicles ts)) + mset (search_vehicles w2)
       \<subseteq># mset (search_vehicles w)"
    by (simp add: res add.assoc)
  show ?case using st M C pool by (simp add: res)
qed

section \<open>What the candidate pool contains\<close>

text \<open>
  \<open>in_direction\<close> is the condition under which the loop of
  \<open>get_vehicles_in_direction\<close> appends a vehicle it has not skipped.
\<close>

definition in_direction :: "world \<Rightarrow> string list \<Rightarrow> nat \<Rightarrow> bool" where
  "in_direction w direction r \<longleftrightarrow>
     (case direction of
        [] \<Rightarrow> False
      | d0 # _ \<Rightarrow>
          (case get_remaining_edges w r of
             Inl e \<Rightarrow> False
           | Inr remaining \<Rightarrow>
               d0 \<in> set remaining \<or> has_past_subroute w direction r = Inr True))"

lemma has_past_subroute_total:
  "direction \<noteq> [] \<Longrightarrow> \<exists>b. has_past_subroute w direction r = Inr b"
  by (cases direction) (auto simp: has_past_subroute_def Let_def)

lemma get_vehicles_in_direction_loop_filter:
  "get_vehicles_in_direction_loop w direction exclude rs acc = Inr res \<Longrightarrow>
   res = acc @ filter (\<lambda>r. PyStr (vehicle_id w r) \<notin> set exclude \<and> in_direction w direction r) rs
   \<and> (\<forall>r\<in>set rs. PyStr (vehicle_id w r) \<notin> set exclude \<longrightarrow>
         direction \<noteq> [] \<and> (\<exists>remaining. get_remaining_edges w r = Inr remaining))"
proof (induction rs arbitrary: acc)
  case Nil
  then show ?case by simp
next
  case (Cons r rs)
  show ?case
  proof (cases "PyStr (vehicle_id w r) \<in> set exclude")
    case True
    then show ?thesis using Cons by simp
  next
    case False
    obtain d0 ds where d: "direction = d0 # ds"
      using Cons.prems False by (cases direction) simp_all
    obtain remaining where rem: "get_remaining_edges w r = Inr remaining"
      using Cons.prems False d by (cases "get_remaining_edges w r") simp_all
    obtain b where past: "has_past_subroute w direction r = Inr b"
      using has_past_subroute_total [of direction w r] d by auto
    have elig: "in_direction w direction r \<longleftrightarrow> d0 \<in> set remaining \<or> b"
      using d rem past by (simp add: in_direction_def)
    show ?thesis
    proof (cases "d0 \<in> set remaining \<or> b")
      case True
      then have "get_vehicles_in_direction_loop w direction exclude rs (acc @ [r]) = Inr res"
        using Cons.prems False d rem past by (auto split: if_splits)
      from Cons.IH [OF this] show ?thesis
        using False True elig d rem by simp
    next
      case no: False
      then have "get_vehicles_in_direction_loop w direction exclude rs acc = Inr res"
        using Cons.prems False d rem past by (auto split: if_splits)
      from Cons.IH [OF this] show ?thesis
        using False no elig d rem by simp
    qed
  qed
qed

lemma get_vehicles_in_direction_filter:
  "get_vehicles_in_direction w direction [PyVehicle fp] = Inr pool \<Longrightarrow>
   pool = filter (in_direction w direction) (VEHICLES w)"
  using get_vehicles_in_direction_loop_filter [of w direction "[PyVehicle fp]" "VEHICLES w" "[]" pool]
  by (simp add: get_vehicles_in_direction_def)

lemma get_vehicles_in_direction_defined:
  "get_vehicles_in_direction w direction [PyVehicle fp] = Inr pool \<Longrightarrow> r \<in> set (VEHICLES w) \<Longrightarrow>
   direction \<noteq> [] \<and> (\<exists>remaining. get_remaining_edges w r = Inr remaining)"
  using get_vehicles_in_direction_loop_filter [of w direction "[PyVehicle fp]" "VEHICLES w" "[]" pool]
  by (simp add: get_vehicles_in_direction_def)

lemma distance_le_iff:
  "distance (a, b) (c, d) \<le> r \<longleftrightarrow> 0 \<le> r \<and> (a - c)\<^sup>2 + (b - d)\<^sup>2 \<le> r\<^sup>2"
proof (cases "0 \<le> r")
  case True
  have "sqrt ((a - c)\<^sup>2 + (b - d)\<^sup>2) \<le> r \<longleftrightarrow> sqrt ((a - c)\<^sup>2 + (b - d)\<^sup>2) \<le> sqrt (r\<^sup>2)"
    using True by simp
  also have "\<dots> \<longleftrightarrow> (a - c)\<^sup>2 + (b - d)\<^sup>2 \<le> r\<^sup>2"
    by (rule real_sqrt_le_iff)
  finally show ?thesis using True by (simp add: distance_def)
next
  case False
  have "0 \<le> sqrt ((a - c)\<^sup>2 + (b - d)\<^sup>2)" by simp
  with False have "\<not> sqrt ((a - c)\<^sup>2 + (b - d)\<^sup>2) \<le> r" by linarith
  with False show ?thesis by (simp add: distance_def)
qed

lemmas scenario_defs =
  scenario_world_def scenario_engine_def scenario_heap_def scenario_vehicle_def
  scenario_platoon_def

lemmas query_defs =
  vehicle_id_def get_route_def get_coordinates_def get_max_speed_def get_speed_def
  get_remaining_edges_def has_past_subroute_def get_vehicles_in_direction_def

lemma scenario_pool:
  "get_vehicles_in_direction (scenario_world\<lparr>platoon_size := 0, platoon_members := [0]\<rparr>)
     [''E1'', ''E2'', ''E3''] [PyVehicle 0] = Inr [0, 1]"
  by (simp add: scenario_defs query_defs)

lemma scenario_run:
  "\<exists>w'. platoon_propagate scenario_platoon scenario_world =
      Ok (scenario_platoon\<lparr>focal_point := platoon_member 0 [platoon_member 1 [] 30] 30\<rparr>) w' \<and>
      platoon_size w' = 1 \<and> platoon_members w' = [0, 1] \<and> search_vehicles w' = []"
  by (simp add: platoon_propagate_def scenario_defs query_defs Let_def
      highlight_def issue_def get_vehicles_in_radius_eq in_radius_def
      distance_le_iff increment_def platoon_add_vehicle_def new_platoon_member_def)

lemmas mutator_defs =
  set_speed_def set_max_speed_def set_target_speed_def stop_highlight_def highlight_def
  issue_def platoon_member_del_def speed_commands_def new_platoon_member_def

lemmas client_defs = shell_def limited_world_def float_of_7_def get_args_def

text \<open>
  A pass on a tree that already holds \<open>A\<close> discards the old member first: its highlight
  is stopped and its recorded maximum speed set again, before \<open>A\<close> is claimed anew.
\<close>

lemma second_pass_discards_children:
  "calls (eng (state_of (platoon_propagate
      (scenario_platoon\<lparr>focal_point := platoon_member 0 [platoon_member 1 [] 30] 30\<rparr>)
      scenario_world))) =
     [Highlight ''F'' HlDefault, Highlight ''A'' HlStop, SetMaxSpeed ''A'' 30,
      Highlight ''A'' (HlColor 0 255 0 255)]"
  by (simp add: platoon_propagate_def scenario_defs query_defs Let_def mutator_defs
      get_vehicles_in_radius_eq in_radius_def
      distance_le_iff increment_def platoon_add_vehicle_def)

section \<open>A member's own vehicle\<close>

text \<open>
  Coordinates are looked up by id, so a pool entry with the member's id is at distance 0
  from it: for a radius of at least 0 it is taken out of the pool by the member itself
  (and skipped), and for a negative radius nothing is within the radius at all.
\<close>

lemma distance_self: "distance c c = 0"
  by (simp add: distance_def)

lemma distance_nonneg: "0 \<le> distance c1 c2"
  by (simp add: distance_def)

lemma set_member_vehicles:
  "set (member_vehicles (platoon_member r ts om)) =
     set (map member_v ts) \<union> set (concat (map member_vehicles ts))"
proof -
  have "set_mset (mset (member_vehicles (platoon_member r ts om))) =
      set_mset (mset (map member_v ts) + mset (concat (map member_vehicles ts)))"
    by (simp only: mset_member_vehicles)
  then show ?thesis by simp
qed

lemma own_id_never_claimed:
  assumes run: "member_propagate rad self w = (t, w')"
    and r: "r \<in> set (member_vehicles t)"
  shows "vehicle_id w r \<noteq> vehicle_id w (member_v self)"
proof
  assume same: "vehicle_id w r = vehicle_id w (member_v self)"
  let ?self = "member_v self"
  let ?w0 = "discard_members (members_in_radius self) w"
  note D = discard_static(2) [of w "members_in_radius self"]
  have st0: "same_static w ?w0" using D by blast
  have p0: "search_vehicles ?w0 = search_vehicles w" by (rule discard_pool)
  have r0: "in_radius ?w0 = in_radius w" using st0 by (rule same_static_in_radius)
  let ?vir = "filter (in_radius w ?self rad) (search_vehicles w)"
  let ?w1 = "?w0\<lparr>search_vehicles := filter (\<lambda>r. \<not> in_radius w ?self rad r) (search_vehicles w)\<rparr>"
  have g: "get_vehicles_in_radius ?self rad ?w0 = (?vir, ?w1)"
    by (simp only: get_vehicles_in_radius_eq r0 p0)
  have "same_static ?w0 ?w1" by (simp add: same_static_def vehicle_id_def fun_eq_iff)
  with st0 have st1: "same_static w ?w1" by (rule same_static_trans)
  have f1: "search_vehicles ?w1 = filter (\<lambda>r. \<not> in_radius w ?self rad r) (search_vehicles w)"
    by simp
  obtain ms w2 where a: "attach_loop ?self ?vir [] ?w1 = (ms, w2)"
    by (cases "attach_loop ?self ?vir [] ?w1")
  obtain ts w3 where c: "propagate_children rad ms w2 = (ts, w3)"
    by (cases "propagate_children rad ms w2")
  have res: "t = platoon_member ?self ts (original_max_speed self)"
    using run g a c by (simp add: Let_def)
  have cb: "claimed_by ?w1 ?self ?vir = claimed_by w ?self ?vir"
    using same_static_claimed_by [OF st1] by simp
  note A = attach_loop_char [OF a, unfolded cb f1]
  note C = propagate_char(2) [OF c]
  have kids: "map member_v ts = claimed_by w ?self ?vir"
    using A C by simp
  have "r \<notin> set (map member_v ts)"
    using same by (simp only: kids) (simp add: claimed_by_def)
  then have deep: "r \<in> set (concat (map member_vehicles ts))"
    using r by (simp add: res set_member_vehicles)
  then have "ts \<noteq> []" by auto
  then have "claimed_by w ?self ?vir \<noteq> []" using kids by auto
  then obtain x where "in_radius w ?self rad x"
    by (auto simp: claimed_by_def filter_empty_conv)
  then have "0 \<le> rad"
    using distance_nonneg [of "get_coordinates w ?self" "get_coordinates w x"]
    by (simp add: in_radius_def)
  then have near: "in_radius w ?self rad r"
    using same by (simp add: in_radius_def get_coordinates_def distance_self)
  have "mset (concat (map member_vehicles ts))
      \<subseteq># mset (concat (map member_vehicles ts)) + mset (search_vehicles w3)"
    by simp
  also have "\<dots> \<subseteq># mset (search_vehicles w2)"
    using C by simp
  finally have "r \<in> set (search_vehicles w2)"
    using deep by (metis mset_subset_eqD set_mset_mset)
  then have "\<not> in_radius w ?self rad r"
    using A by simp
  with near show False by simp
qed

lemma own_id_leaves_pool:
  assumes run: "member_propagate rad self w = (t, w')"
    and rad: "0 \<le> rad"
    and r: "r \<in> set (search_vehicles w')"
  shows "vehicle_id w r \<noteq> vehicle_id w (member_v self)"
proof
  assume same: "vehicle_id w r = vehicle_id w (member_v self)"
  let ?self = "member_v self"
  let ?w0 = "discard_members (members_in_radius self) w"
  note D = discard_static(2) [of w "members_in_radius self"]
  have st0: "same_static w ?w0" using D by blast
  have p0: "search_vehicles ?w0 = search_vehicles w" by (rule discard_pool)
  have r0: "in_radius ?w0 = in_radius w" using st0 by (rule same_static_in_radius)
  let ?vir = "filter (in_radius w ?self rad) (search_vehicles w)"
  let ?w1 = "?w0\<lparr>search_vehicles := filter (\<lambda>r. \<not> in_radius w ?self rad r) (search_vehicles w)\<rparr>"
  have g: "get_vehicles_in_radius ?self rad ?w0 = (?vir, ?w1)"
    by (simp only: get_vehicles_in_radius_eq r0 p0)
  have "same_static ?w0 ?w1" by (simp add: same_static_def vehicle_id_def fun_eq_iff)
  with st0 have st1: "same_static w ?w1" by (rule same_static_trans)
  have f1: "search_vehicles ?w1 = filter (\<lambda>r. \<not> in_radius w ?self rad r) (search_vehicles w)"
    by simp
  obtain ms w2 where a: "attach_loop ?self ?vir [] ?w1 = (ms, w2)"
    by (cases "attach_loop ?self ?vir [] ?w1")
  obtain ts w3 where c: "propagate_children rad ms w2 = (ts, w3)"
    by (cases "propagate_children rad ms w2")
  have res: "w' = w3"
    using run g a c by (simp add: Let_def)
  note A = attach_loop_char [OF a, unfolded f1]
  note C = propagate_char(2) [OF c]
  have "mset (search_vehicles w3)
      \<subseteq># mset (concat (map member_vehicles ts)) + mset (search_vehicles w3)"
    by simp
  also have "\<dots> \<subseteq># mset (search_vehicles w2)"
    using C by simp
  finally have "r \<in> set (search_vehicles w2)"
    using r res by (metis mset_subset_eqD set_mset_mset)
  then have "\<not> in_radius w ?self rad r"
    using A by simp
  moreover have "in_radius w ?self rad r"
    using same rad by (simp add: in_radius_def get_coordinates_def distance_self)
  ultimately show False by simp
qed


lemma distinct_map_mset_subset:
  assumes "distinct (map f xs)" and "mset ys \<subseteq># mset xs"
  shows "distinct (map f ys)"
proof -
  have "image_mset f (mset ys) \<subseteq># image_mset f (mset xs)"
    using assms(2) by (rule image_mset_subseteq_mono)
  then have sub: "mset (map f ys) \<subseteq># mset (map f xs)" by simp
  have "count (mset (map f ys)) a \<le> 1" for a
  proof -
    have "count (mset (map f ys)) a \<le> count (mset (map f xs)) a"
      using sub by (rule mset_subset_eq_count)
    also have "\<dots> \<le> 1"
      using assms(1) by (simp add: distinct_count_atmost_1)
    finally show ?thesis .
  qed
  then have "count (mset (map f ys)) a = (if a \<in> set (map f ys) then 1 else 0)" for a
    by (metis count_mset_0_iff count_greater_eq_one_iff le_antisym set_mset_mset)
  then show ?thesis by (simp only: distinct_count_atmost_1) simp
qed

section \<open>Ids are issued once\<close>

text \<open>Reading a numeral back shows that different numbers print differently.\<close>

definition read_nat :: "string \<Rightarrow> nat" where
  "read_nat s = foldl (\<lambda>a c. 10 * a + (of_char c - 48)) 0 s"

lemma of_char_digit_char: "d < 10 \<Longrightarrow> of_char (digit_char d) = 48 + d"
  by (simp add: digit_char_def)

lemma read_nat_snoc: "read_nat (s @ [c]) = 10 * read_nat s + (of_char c - 48)"
  by (simp add: read_nat_def)

lemma read_show_nat: "read_nat (show_nat n) = n"
proof (induction n rule: show_nat.induct)
  case (1 n)
  show ?case
  proof (cases "n < 10")
    case True
    then show ?thesis
      by (subst show_nat.simps) (simp add: read_nat_def of_char_digit_char)
  next
    case False
    have "read_nat (show_nat n) = 10 * read_nat (show_nat (n div 10)) + (of_char (digit_char (n mod 10)) - 48)"
      using False by (subst show_nat.simps) (simp add: read_nat_snoc)
    also have "\<dots> = 10 * (n div 10) + n mod 10"
      using "1.IH" [OF False] by (simp add: of_char_digit_char)
    finally show ?thesis by simp
  qed
qed

lemma show_nat_inj: "show_nat a = show_nat b \<Longrightarrow> a = b"
  by (metis read_show_nat)

lemma vehicle_name_inj: "''v'' @ show_nat a = ''v'' @ show_nat b \<longleftrightarrow> a = b"
  using show_nat_inj by auto

section \<open>Operations that leave the registry alone\<close>















section \<open>Garbage collection\<close>

text \<open>
  Popping one registered vehicle from both structures keeps the invariant; so does the loop
  of \<open>remove_vehicles\<close>, which under the invariant never meets a missing key and leaves
  exactly the vehicles the engine still lists.
\<close>

lemma nth_list_pop_below: "j < i \<Longrightarrow> i < length xs \<Longrightarrow> list_pop xs i ! j = xs ! j"
  by (simp add: list_pop_def nth_append)








section \<open>The registry across a simulation step\<close>















section \<open>The registry during an injection\<close>













section \<open>The registry in the scenario\<close>





section \<open>The size counter after a pass\<close>

text \<open>
  A pass resets \<open>platoon.size\<close> to 0 and \<open>platoon.members\<close> to the focal vehicle alone,
  and then counts and lists every claimed vehicle: the counter ends one short of the list.
\<close>

lemma platoon_size_after_pass:
  assumes "platoon_propagate p w = Ok p' w'"
  shows "platoon_size w' + 1 = length (platoon_members w')"
proof -
  let ?fp = "member_v (focal_point p)"
  let ?w1 = "w\<lparr>platoon_size := 0, platoon_members := [?fp]\<rparr>"
  obtain direction where d: "get_remaining_edges ?w1 ?fp = Inr direction"
    using assms by (auto simp: platoon_propagate_def Let_def split: sum.splits)
  let ?w2 = "highlight ?fp HlDefault ?w1"
  obtain pool where pl: "get_vehicles_in_direction ?w2 direction [PyVehicle ?fp] = Inr pool"
    using assms d by (auto simp: platoon_propagate_def Let_def split: sum.splits)
  let ?w3 = "?w2\<lparr>search_vehicles := pool\<rparr>"
  obtain t where run: "member_propagate (radius p) (focal_point p) ?w3 = (t, w')"
    using assms d pl by (auto simp: platoon_propagate_def Let_def split: prod.splits)
  have "size (mset (platoon_members w')) = size (mset (platoon_members ?w3)) + size (mset (member_vehicles t))"
    using propagate_char(1) [OF run] by simp
  moreover have "platoon_size w' = platoon_size ?w3 + length (member_vehicles t)"
    using propagate_char(1) [OF run] by simp
  ultimately show ?thesis
    by (simp add: highlight_def issue_def)
qed

text \<open>
  Claim C4 (size counter = number of vehicles including the focal one = length of the flat
  list; one claimed vehicle gives size 2).  On the scenario of the specification the pass
  succeeds, the flat list is \<open>[F, A]\<close> of length 2, and the size counter is 1.
\<close>

theorem scenario_size_is_one:
  "is_ok (platoon_propagate scenario_platoon scenario_world) \<and>
   platoon_size (state_of (platoon_propagate scenario_platoon scenario_world)) = 1 \<and>
   platoon_members (state_of (platoon_propagate scenario_platoon scenario_world)) = [0, 1] \<and>
   map (vehicle_id scenario_world) [0, 1] = [''F'', ''A'']"
proof -
  obtain w' where "platoon_propagate scenario_platoon scenario_world =
      Ok (scenario_platoon\<lparr>focal_point := platoon_member 0 [platoon_member 1 [] 30] 30\<rparr>) w'"
      "platoon_size w' = 1" "platoon_members w' = [0, 1]"
    using scenario_run by blast
  then show ?thesis by (simp add: scenario_defs vehicle_id_def)
qed

section \<open>Claiming by distance\<close>




section \<open>The candidate pool\<close>

text \<open>
  Claim C3, as amended: a registered vehicle other than the focal one is in the pool exactly
  when the first edge of the direction is on its remaining route, or its current edge lies
  on its route from the first occurrence of that edge on.  (A successful call also shows
  that the direction is not empty and that the current edge of every registered vehicle is
  on its route.)
\<close>

theorem pool_first_edge_or_past_subroute:
  assumes "get_vehicles_in_direction w direction [PyVehicle fp] = Inr pool"
    and "r \<in> set (VEHICLES w)"
    and "vehicle_id w r \<noteq> vehicle_id w fp"
  shows "r \<in> set pool \<longleftrightarrow>
     (\<exists>d0 ds. direction = d0 # ds \<and>
        ((\<exists>remaining. get_remaining_edges w r = Inr remaining \<and> d0 \<in> set remaining) \<or>
         has_past_subroute w direction r = Inr True))"
proof -
  have "r \<in> set pool \<longleftrightarrow> in_direction w direction r"
    using get_vehicles_in_direction_filter [OF assms(1)] assms(2) by simp
  moreover have "direction \<noteq> []" "\<exists>remaining. get_remaining_edges w r = Inr remaining"
    using get_vehicles_in_direction_defined [OF assms(1,2)] by simp_all
  ultimately show ?thesis
    by (auto simp: in_direction_def split: list.splits sum.splits)
qed

theorem pool_first_edge_or_past_subroute_witness:
  "get_vehicles_in_direction crossing_world [''E1'', ''E2'', ''E3''] [PyVehicle 0] = Inr [0, 1] \<and>
   1 \<in> set (VEHICLES crossing_world) \<and>
   vehicle_id crossing_world 1 \<noteq> vehicle_id crossing_world 0 \<and>
   1 \<in> set [0, 1::nat] \<and>
   get_remaining_edges crossing_world 1 = Inr [''E2'', ''E3''] \<and>
   has_past_subroute crossing_world [''E1'', ''E2'', ''E3''] 1 = Inr True"
proof -
  have p: "get_vehicles_in_direction crossing_world [''E1'', ''E2'', ''E3''] [PyVehicle 0] = Inr [0, 1]"
    by (simp add: crossing_world_def scenario_defs query_defs)
  have m: "1 \<in> set (VEHICLES crossing_world)"
    by (simp add: crossing_world_def scenario_defs)
  have i: "vehicle_id crossing_world 1 \<noteq> vehicle_id crossing_world 0"
    by (simp add: crossing_world_def scenario_defs query_defs)
  show ?thesis
    using pool_first_edge_or_past_subroute [OF p m i] p m i
    by (simp add: crossing_world_def scenario_defs query_defs)
qed

text \<open>
  Claim C3 as stated fails: the remaining route of \<open>C\<close> meets the direction in \<open>E2\<close>,
  and \<open>C\<close> is registered and is not the focal vehicle, but it is not in the pool.
\<close>

theorem crossing_route_not_in_pool:
  "get_remaining_edges crossing_world 0 = Inr [''E1'', ''E2'', ''E3''] \<and>
   get_vehicles_in_direction crossing_world [''E1'', ''E2'', ''E3''] [PyVehicle 0] = Inr [0, 1] \<and>
   3 \<in> set (VEHICLES crossing_world) \<and>
   vehicle_id crossing_world 3 \<noteq> vehicle_id crossing_world 0 \<and>
   get_remaining_edges crossing_world 3 = Inr [''E0'', ''E2'', ''E3''] \<and>
   ''E2'' \<in> set [''E0'', ''E2'', ''E3''] \<inter> set [''E1'', ''E2'', ''E3''] \<and>
   3 \<notin> set [0, 1::nat]"
  by (simp add: crossing_world_def scenario_defs query_defs)

section \<open>Exactly-once membership\<close>

text \<open>
  What a pass does guarantee.  When the ids of the registered vehicles are pairwise
  different, then after a pass no id occurs twice in the platoon's flat list
  (\<open>platoon.members\<close>) nor among the vehicles of the tree (\<open>iter(platoon)\<close>, the focal
  vehicle included), and the ids of the claimed members (\<open>platoon.get_members()\<close>) are
  disjoint from the ids left in the pool.  The focal vehicle, which is never claimed, is out
  of the remaining pool when the radius is at least 0.
\<close>

lemma exactly_once_membership:
  assumes ids: "distinct (map (vehicle_id w) (VEHICLES w))"
    and pass: "platoon_propagate p w = Ok p' w'"
  shows "distinct (map (vehicle_id w') (platoon_iter p')) \<and>
         distinct (map (vehicle_id w') (platoon_members w')) \<and>
         set (map (vehicle_id w') (map member_v (get_members p'))) \<inter>
           set (map (vehicle_id w') (search_vehicles w')) = {} \<and>
         (0 \<le> radius p \<longrightarrow>
            vehicle_id w' (member_v (focal_point p'))
              \<notin> set (map (vehicle_id w') (search_vehicles w')))"
proof -
  let ?fp = "member_v (focal_point p)"
  let ?w1 = "w\<lparr>platoon_size := 0, platoon_members := [?fp]\<rparr>"
  obtain direction where d: "get_remaining_edges ?w1 ?fp = Inr direction"
    using pass by (auto simp: platoon_propagate_def Let_def split: sum.splits)
  let ?w2 = "highlight ?fp HlDefault ?w1"
  obtain pool where pl: "get_vehicles_in_direction ?w2 direction [PyVehicle ?fp] = Inr pool"
    using pass d by (auto simp: platoon_propagate_def Let_def split: sum.splits)
  let ?w3 = "?w2\<lparr>search_vehicles := pool\<rparr>"
  obtain t where run: "member_propagate (radius p) (focal_point p) ?w3 = (t, w')"
    and p': "p' = p\<lparr>focal_point := t\<rparr>"
    using pass d pl by (auto simp: platoon_propagate_def Let_def split: prod.splits)
  note P = propagate_char(1) [OF run]
  have st: "same_static ?w3 w'" using P by simp
  have id3: "vehicle_id ?w3 = vehicle_id w"
    by (simp add: vehicle_id_def highlight_def issue_def fun_eq_iff)
  have id': "vehicle_id w' = vehicle_id w"
    using same_static_vehicle_id [OF st] id3 by simp
  have "pool = filter (in_direction ?w2 direction) (VEHICLES ?w2)"
    using pl by (rule get_vehicles_in_direction_filter)
  then have "mset pool \<subseteq># mset (VEHICLES w)"
    by (simp add: highlight_def issue_def)
  then have dpool: "distinct (map (vehicle_id w) pool)"
    using ids by (rule distinct_map_mset_subset [rotated])
  have sub: "mset (member_vehicles t @ search_vehicles w') \<subseteq># mset pool"
    using P by simp
  have dall: "distinct (map (vehicle_id w) (member_vehicles t @ search_vehicles w'))"
    using dpool sub by (rule distinct_map_mset_subset)
  have own: "\<forall>r\<in>set (member_vehicles t). vehicle_id w r \<noteq> vehicle_id w ?fp"
    using own_id_never_claimed [OF run] id3 by simp
  have tree: "platoon_iter p' = ?fp # member_vehicles t"
    using P by (simp add: platoon_iter_def get_members_def member_vehicles_def p')
  have d1: "distinct (map (vehicle_id w) (?fp # member_vehicles t))"
    using dall own by auto
  have "mset (platoon_members w') = mset (?fp # member_vehicles t)"
    using P by (simp add: highlight_def issue_def)
  then have "mset (map (vehicle_id w) (platoon_members w')) =
      mset (map (vehicle_id w) (?fp # member_vehicles t))"
    by (metis mset_map)
  then have d2: "distinct (map (vehicle_id w) (platoon_members w'))"
    using d1 by (metis mset_eq_imp_distinct_iff)
  have d3: "set (map (vehicle_id w) (member_vehicles t)) \<inter>
      set (map (vehicle_id w) (search_vehicles w')) = {}"
    using dall by simp
  have g1: "distinct (map (vehicle_id w') (platoon_iter p'))"
    using d1 by (simp only: id' tree)
  have g2: "distinct (map (vehicle_id w') (platoon_members w'))"
    using d2 by (simp only: id')
  have "map member_v (get_members p') = member_vehicles t"
    by (simp add: get_members_def member_vehicles_def p')
  then have g3: "set (map (vehicle_id w') (map member_v (get_members p'))) \<inter>
      set (map (vehicle_id w') (search_vehicles w')) = {}"
    using d3 by (simp only: id')
  have g4: "vehicle_id w' (member_v (focal_point p'))
      \<notin> set (map (vehicle_id w') (search_vehicles w'))" if "0 \<le> radius p"
  proof -
    have "\<forall>r\<in>set (search_vehicles w'). vehicle_id w r \<noteq> vehicle_id w ?fp"
      using own_id_leaves_pool [OF run that] by (simp only: id3) simp
    moreover have "member_v (focal_point p') = ?fp"
      using P by (simp add: p')
    ultimately show ?thesis by (simp only: id') auto
  qed
  show ?thesis using g1 g2 g3 g4 by blast
qed

text \<open>The scenario: the registry ids are distinct, the pass succeeds.\<close>

lemma exactly_once_membership_scenario:
  "distinct (map (vehicle_id scenario_world) (VEHICLES scenario_world)) \<and>
   is_ok (platoon_propagate scenario_platoon scenario_world) \<and>
   platoon_members (state_of (platoon_propagate scenario_platoon scenario_world)) = [0, 1] \<and>
   distinct (map (vehicle_id (state_of (platoon_propagate scenario_platoon scenario_world)))
     (platoon_members (state_of (platoon_propagate scenario_platoon scenario_world)))) \<and>
   search_vehicles (state_of (platoon_propagate scenario_platoon scenario_world)) = []"
proof -
  have ids: "distinct (map (vehicle_id scenario_world) (VEHICLES scenario_world))"
    by (simp add: scenario_defs query_defs)
  obtain w' where run: "platoon_propagate scenario_platoon scenario_world =
      Ok (scenario_platoon\<lparr>focal_point := platoon_member 0 [platoon_member 1 [] 30] 30\<rparr>) w'"
    and res: "platoon_members w' = [0, 1]" "search_vehicles w' = []"
    using scenario_run by blast
  show ?thesis
    using exactly_once_membership [OF ids run] ids run res by simp
qed

text \<open>
  Claim C1 (no id twice in the membership, and the member ids disjoint from what is left of
  the pool at the end of every pass).  The pool is built with the focal vehicle object in
  \<open>exclude\<close>, where ids are looked for, so the focal vehicle is in the pool.  With the
  radius set to \<open>-1\<close> nothing is within the radius: the pass on the scenario succeeds and
  ends with the flat list \<open>[F]\<close> and the pool \<open>[F, A]\<close>, the member \<open>F\<close> still in it.
\<close>

theorem focal_left_in_pool_at_negative_radius:
  "is_ok (platoon_propagate (scenario_platoon\<lparr>radius := - 1\<rparr>) scenario_world) \<and>
   platoon_members (state_of (platoon_propagate (scenario_platoon\<lparr>radius := - 1\<rparr>) scenario_world))
     = [0] \<and>
   search_vehicles (state_of (platoon_propagate (scenario_platoon\<lparr>radius := - 1\<rparr>) scenario_world))
     = [0, 1] \<and>
   map (vehicle_id scenario_world) [0, 1] = [''F'', ''A'']"
  by (simp add: platoon_propagate_def scenario_defs query_defs Let_def
      highlight_def issue_def get_vehicles_in_radius_eq in_radius_def
      distance_le_iff increment_def platoon_add_vehicle_def new_platoon_member_def)

section \<open>Dropping a member\<close>

text \<open>
  Claim C8, as amended: a member created for vehicle \<open>r\<close> in state \<open>w0\<close> records the
  maximum speed of \<open>r\<close> in \<open>w0\<close>.  Dropping it in any later state \<open>w\<close>, whatever has been
  done to the maximum speed in between, sets the maximum speed back to the recorded value,
  provided the speed the engine reports for the vehicle in \<open>w\<close> does not exceed it.
\<close>

theorem drop_restores_max_speed:
  assumes "vehicle_id w r = vehicle_id w0 r"
    and "get_speed w r \<le> get_max_speed w0 r"
  shows "get_max_speed (state_of (platoon_member_del (new_platoon_member w0 r) w)) r =
         get_max_speed w0 r"
  using assms
  by (simp add: mutator_defs Let_def get_max_speed_def get_speed_def vehicle_id_def)

text \<open>The maximum speed of \<open>A\<close> was 30 at creation and is 50 at the drop, which restores 30.\<close>

theorem drop_restores_max_speed_witness:
  "vehicle_id raised_world 1 = vehicle_id scenario_world 1 \<and>
   get_speed raised_world 1 \<le> get_max_speed scenario_world 1 \<and>
   get_max_speed scenario_world 1 = 30 \<and>
   get_max_speed raised_world 1 = 50 \<and>
   get_max_speed (state_of (platoon_member_del (new_platoon_member scenario_world 1) raised_world)) 1
     = 30"
proof -
  have a: "vehicle_id raised_world 1 = vehicle_id scenario_world 1"
    by (simp add: raised_world_def scenario_defs query_defs)
  have b: "get_speed raised_world 1 \<le> get_max_speed scenario_world 1"
    by (simp add: raised_world_def scenario_defs query_defs)
  have c: "get_max_speed scenario_world 1 = 30" "get_max_speed raised_world 1 = 50"
    by (simp_all add: raised_world_def scenario_defs query_defs)
  show ?thesis
    using drop_restores_max_speed [OF a b] a b c by simp
qed

text \<open>
  Claim C8 as stated fails: with \<open>A\<close> driving at 40 under a maximum speed raised to 50,
  \<open>set_max_speed\<close> refuses the recorded 30 and the maximum speed stays 50.
\<close>

theorem drop_keeps_raised_max_speed:
  "get_max_speed scenario_world 1 = 30 \<and>
   original_max_speed (new_platoon_member scenario_world 1) = 30 \<and>
   vehicle_id fast_world 1 = vehicle_id scenario_world 1 \<and>
   get_max_speed fast_world 1 = 50 \<and>
   get_max_speed (state_of (platoon_member_del (new_platoon_member scenario_world 1) fast_world)) 1
     = 50"
  by (simp add: fast_world_def scenario_defs query_defs mutator_defs Let_def)




section \<open>A speed command that fails\<close>

text \<open>
  \<open>do_speed\<close> sets the vehicles one after the other, so the requests issued are those for
  the vehicles in front of the first one whose maximum speed is exceeded.
\<close>

lemma set_speed_frame:
  "set_speed r s w = out \<Longrightarrow>
     get_max_speed (state_of out) = get_max_speed w \<and> vehicle_id (state_of out) = vehicle_id w"
  by (auto simp: set_speed_def set_target_speed_def issue_def get_max_speed_def vehicle_id_def
      Let_def fun_eq_iff)

lemma set_speed_calls:
  "calls (eng (state_of (set_speed r s w))) =
     calls (eng w) @ (if get_max_speed w r < s then [] else [SetSpeed (vehicle_id w r) s])"
  by (simp add: set_speed_def set_target_speed_def issue_def Let_def)

lemma set_speed_ok: "is_ok (set_speed r s w) \<longleftrightarrow> \<not> get_max_speed w r < s"
  by (simp add: set_speed_def Let_def)

lemma set_speed_err: "set_speed r s w = Err e w' \<Longrightarrow> e = TrafficObjectsError \<and> w' = w"
  by (simp add: set_speed_def Let_def split: if_splits)

lemma for_each_set_speed:
  "calls (eng (state_of (for_each (\<lambda>r. set_speed r s) vs w))) =
     calls (eng w) @
       map (\<lambda>r. SetSpeed (vehicle_id w r) s) (takeWhile (\<lambda>r. \<not> get_max_speed w r < s) vs)"
proof (induction vs arbitrary: w)
  case Nil
  then show ?case by simp
next
  case (Cons r vs)
  show ?case
  proof (cases "set_speed r s w")
    case (Ok u w')
    have ok: "\<not> get_max_speed w r < s"
      using set_speed_ok [of r s w] Ok by simp
    have fr: "get_max_speed w' = get_max_speed w" "vehicle_id w' = vehicle_id w"
      using set_speed_frame [OF Ok] by simp_all
    have "calls (eng w') = calls (eng w) @ [SetSpeed (vehicle_id w r) s]"
      using set_speed_calls [of r s w] Ok ok by simp
    then show ?thesis
      using Cons.IH [of w'] Ok ok fr by simp
  next
    case (Err e w')
    have "get_max_speed w r < s"
      using set_speed_ok [of r s w] Err by simp
    moreover have "w' = w" using set_speed_err [OF Err] by simp
    ultimately show ?thesis using Err by simp
  qed
qed

lemma for_each_set_speed_fails:
  "\<exists>r\<in>set vs. get_max_speed w r < s \<Longrightarrow>
   \<exists>w'. for_each (\<lambda>r. set_speed r s) vs w = Err TrafficObjectsError w'"
proof (induction vs arbitrary: w)
  case Nil
  then show ?case by simp
next
  case (Cons r vs)
  show ?case
  proof (cases "set_speed r s w")
    case (Ok u w')
    have ok: "\<not> get_max_speed w r < s"
      using set_speed_ok [of r s w] Ok by simp
    have fr: "get_max_speed w' = get_max_speed w"
      using set_speed_frame [OF Ok] by simp
    have "\<exists>r\<in>set vs. get_max_speed w' r < s"
      using Cons.prems ok fr by auto
    from Cons.IH [OF this] show ?thesis using Ok by simp
  next
    case (Err e w')
    then show ?thesis using set_speed_err [OF Err] by simp
  qed
qed

text \<open>
  Claim C5, as amended: a speed command with a non-numeric argument raises with the state
  untouched; one whose speed exceeds the maximum speed of a targeted vehicle raises after
  having set exactly the targeted vehicles in front of the first such vehicle, and issues no
  request for that vehicle or any later one.
\<close>

theorem failed_speed_command:
  assumes "get_args c 1 = Inr (a # rest)"
  shows "(float_of a = None \<longrightarrow> (\<exists>msg. do_speed float_of c w = Err (ClientError msg) w)) \<and>
   (\<forall>s vs. float_of a = Some s \<and>
       (if rest = [] then Inr (VEHICLES w) else get_vehicles w rest) = Inr vs \<and>
       (\<exists>r\<in>set vs. get_max_speed w r < s) \<longrightarrow>
       (\<exists>w'. do_speed float_of c w = Err TrafficObjectsError w' \<and>
          calls (eng w') =
            calls (eng w) @
              map (\<lambda>r. SetSpeed (vehicle_id w r) s)
                (takeWhile (\<lambda>r. \<not> get_max_speed w r < s) vs)))"
proof (intro conjI allI impI)
  assume "float_of a = None"
  then show "\<exists>msg. do_speed float_of c w = Err (ClientError msg) w"
    using assms by (simp add: do_speed_def)
next
  fix s vs
  assume h: "float_of a = Some s \<and>
       (if rest = [] then Inr (VEHICLES w) else get_vehicles w rest) = Inr vs \<and>
       (\<exists>r\<in>set vs. get_max_speed w r < s)"
  then have run: "do_speed float_of c w = for_each (\<lambda>r. set_speed r s) vs w"
    using assms by (auto simp: do_speed_def split: if_splits)
  obtain w' where e: "for_each (\<lambda>r. set_speed r s) vs w = Err TrafficObjectsError w'"
    using for_each_set_speed_fails [of vs w s] h by blast
  have "calls (eng w') = calls (eng w) @
      map (\<lambda>r. SetSpeed (vehicle_id w r) s) (takeWhile (\<lambda>r. \<not> get_max_speed w r < s) vs)"
    using for_each_set_speed [of s vs w] e by simp
  then show "\<exists>w'. do_speed float_of c w = Err TrafficObjectsError w' \<and>
          calls (eng w') =
            calls (eng w) @
              map (\<lambda>r. SetSpeed (vehicle_id w r) s)
                (takeWhile (\<lambda>r. \<not> get_max_speed w r < s) vs)"
    using run e by simp
qed

theorem failed_speed_command_witness:
  "get_args (shell\<lparr>last_line := ''speed abc''\<rparr>) 1 = Inr [''abc''] \<and>
   float_of_7 ''abc'' = None \<and>
   \<not> is_ok (do_speed float_of_7 (shell\<lparr>last_line := ''speed abc''\<rparr>) limited_world) \<and>
   state_of (do_speed float_of_7 (shell\<lparr>last_line := ''speed abc''\<rparr>) limited_world) =
     limited_world \<and>
   get_args (shell\<lparr>last_line := ''speed 7''\<rparr>) 1 = Inr [''7''] \<and>
   float_of_7 ''7'' = Some 7 \<and>
   get_max_speed limited_world 1 < 7 \<and>
   \<not> is_ok (do_speed float_of_7 (shell\<lparr>last_line := ''speed 7''\<rparr>) limited_world) \<and>
   calls (eng (state_of (do_speed float_of_7 (shell\<lparr>last_line := ''speed 7''\<rparr>) limited_world))) =
     [SetSpeed ''F'' 7]"
proof -
  have a1: "get_args (shell\<lparr>last_line := ''speed abc''\<rparr>) 1 = Inr [''abc'']"
    by (simp add: client_defs)
  have a2: "get_args (shell\<lparr>last_line := ''speed 7''\<rparr>) 1 = Inr [''7'']"
    by (simp add: client_defs)
  have f: "float_of_7 ''abc'' = None" "float_of_7 ''7'' = Some 7"
    by (simp_all add: float_of_7_def)
  have m: "get_max_speed limited_world 1 < 7" "\<not> get_max_speed limited_world 0 < 7"
    "vehicle_id limited_world 0 = ''F''" "calls (eng limited_world) = []"
    "VEHICLES limited_world = [0, 1, 2]"
    by (simp_all add: client_defs scenario_defs query_defs)
  from failed_speed_command [OF a1, of float_of_7 limited_world] f
  obtain msg where r1: "do_speed float_of_7 (shell\<lparr>last_line := ''speed abc''\<rparr>) limited_world
      = Err (ClientError msg) limited_world"
    by blast
  from failed_speed_command [OF a2, of float_of_7 limited_world] f m
  obtain w' where r2: "do_speed float_of_7 (shell\<lparr>last_line := ''speed 7''\<rparr>) limited_world
      = Err TrafficObjectsError w'"
    and c2: "calls (eng w') = calls (eng limited_world) @
       map (\<lambda>r. SetSpeed (vehicle_id limited_world r) 7)
         (takeWhile (\<lambda>r. \<not> get_max_speed limited_world r < 7) [0, 1, 2])"
    by fastforce
  show ?thesis
    using a1 a2 f m r1 r2 c2 by simp
qed

text \<open>
  Claim C5 as stated fails: \<open>speed 7\<close> on the whole registry raises because of \<open>A\<close>
  (maximum speed 5), after \<open>F\<close> has been set to 7.
\<close>

theorem speed_set_before_later_failure:
  "get_args (shell\<lparr>last_line := ''speed 7''\<rparr>) 1 = Inr [''7''] \<and>
   get_max_speed limited_world 1 < 7 \<and>
   \<not> is_ok (do_speed float_of_7 (shell\<lparr>last_line := ''speed 7''\<rparr>) limited_world) \<and>
   speed_commands limited_world = [] \<and>
   speed_commands (state_of (do_speed float_of_7 (shell\<lparr>last_line := ''speed 7''\<rparr>) limited_world))
     = [SetSpeed ''F'' 7]"
  by (simp add: client_defs scenario_defs query_defs do_speed_def mutator_defs Let_def)

section \<open>Releasing the stepping loop after a command\<close>

text \<open>
  \<open>onecmd\<close> sets \<open>block\<close> again only after the command has returned; when the command
  raises, the handlers return the state the command left.
\<close>

lemma onecmd_error_exit:
  assumes "\<not> pause c" and "blocker c"
    and "dispatch line (c\<lparr>last_line := line, block := False\<rparr>, w) = Err e (c', w')"
  shows "onecmd dispatch line (c, w) = Some (Ok () (c', w'))"
  using assms by (simp add: onecmd_def Let_def split: error.splits)

lemma onecmd_normal_exit:
  assumes "\<not> pause c" and "blocker c"
    and "dispatch line (c\<lparr>last_line := line, block := False\<rparr>, w) = Ok () (c', w')"
  shows "onecmd dispatch line (c, w) =
     Some (Ok () (if \<not> pause c' then c'\<lparr>block := True\<rparr> else c', w'))"
  using assms by (simp add: onecmd_def Let_def)

text \<open>
  Claim C2 (the proceed signal is set again on the normal and on the error exit) on a
  client that is not paused: after \<open>speed 7\<close>, which succeeds, \<open>block\<close> is set; after
  \<open>speed abc\<close>, which raises \<open>ClientError\<close>, \<open>onecmd\<close> returns with \<open>block\<close> cleared and
  the client still not paused.
\<close>

theorem failed_command_leaves_block_cleared:
  "\<not> pause shell \<and> block shell \<and> blocker shell \<and>
   map_option block (client_after
     (onecmd (\<lambda>line. on_world (do_speed float_of_7)) ''speed 7'' (shell, scenario_world)))
     = Some True \<and>
   map_option block (client_after
     (onecmd (\<lambda>line. on_world (do_speed float_of_7)) ''speed abc'' (shell, scenario_world)))
     = Some False \<and>
   map_option pause (client_after
     (onecmd (\<lambda>line. on_world (do_speed float_of_7)) ''speed abc'' (shell, scenario_world)))
     = Some False"
proof -
  have ok: "is_ok (do_speed float_of_7 (shell\<lparr>last_line := ''speed 7'', block := False\<rparr>) scenario_world)"
    by (simp add: client_defs scenario_defs query_defs do_speed_def mutator_defs Let_def)
  have err: "do_speed float_of_7 (shell\<lparr>last_line := ''speed abc'', block := False\<rparr>) scenario_world
      = Err (ClientError ''Cannot change speed, not a number'') scenario_world"
    by (simp add: client_defs do_speed_def)
  obtain w' where run: "do_speed float_of_7 (shell\<lparr>last_line := ''speed 7'', block := False\<rparr>) scenario_world
      = Ok () w'"
    using ok by (cases "do_speed float_of_7 (shell\<lparr>last_line := ''speed 7'', block := False\<rparr>) scenario_world") simp_all
  have p: "\<not> pause shell" "block shell" "blocker shell"
    by (simp_all add: shell_def)
  show ?thesis
    using p run err by (simp add: onecmd_def on_world_def Let_def)
qed

section \<open>Freezing and restoring the fleet\<close>

text \<open>
  What \<open>set_speed\<close> changes when it succeeds, what \<open>__enter__\<close> has stored and set when it
  succeeds, and when \<open>__exit__\<close> succeeds.
\<close>

lemma set_speed_Ok:
  assumes "set_speed r s w = Ok u w'"
  shows "heap w' = (heap w)(r := (heap w r)\<lparr>target_speed := s\<rparr>)"
    and "veh_id_list (eng w') = veh_id_list (eng w)"
    and "veh_max_speed (eng w') = veh_max_speed (eng w)"
    and "\<not> get_max_speed w r < s"
  using assms
  by (auto simp: set_speed_def set_target_speed_def issue_def Let_def split: if_splits)

lemma set_speed_Ok_queries:
  assumes "set_speed r s w = Ok u w'"
  shows "vehicle_id w' = vehicle_id w" and "get_max_speed w' = get_max_speed w"
    and "is_vehicle w' = is_vehicle w"
  using set_speed_Ok(1,2,3) [OF assms]
  by (auto simp: vehicle_id_def get_max_speed_def is_vehicle_def fun_eq_iff)

lemma freeze_enter_char:
  assumes "freeze_enter vs m0 w = Ok m w1" and "distinct (map (vehicle_id w) vs)"
  shows "(\<forall>r\<in>set vs. m (vehicle_id w r) = Some (target_speed (heap w r))) \<and>
         (\<forall>k. k \<notin> set (map (vehicle_id w) vs) \<longrightarrow> m k = m0 k) \<and>
         (\<forall>r\<in>set vs. target_speed (heap w1 r) = 1) \<and>
         (\<forall>r. r \<notin> set vs \<longrightarrow> heap w1 r = heap w r) \<and>
         vehicle_id w1 = vehicle_id w \<and> get_max_speed w1 = get_max_speed w \<and>
         is_vehicle w1 = is_vehicle w"
  using assms
proof (induction vs arbitrary: m0 w)
  case Nil
  then show ?case by simp
next
  case (Cons r rs)
  obtain w' where s: "set_speed r 1 w = Ok () w'"
    and rest: "freeze_enter rs (m0(vehicle_id w r \<mapsto> target_speed (heap w r))) w' = Ok m w1"
    using Cons.prems(1) by (auto simp: Let_def split: outcome.splits)
  note h = set_speed_Ok [OF s] set_speed_Ok_queries [OF s]
  have d: "distinct (map (vehicle_id w') rs)" "vehicle_id w r \<notin> set (map (vehicle_id w) rs)"
    "r \<notin> set rs"
    using Cons.prems(2) h by auto
  note IH = Cons.IH [OF rest d(1)]
  have a: "\<forall>x\<in>set (r # rs). m (vehicle_id w x) = Some (target_speed (heap w x))"
    using IH h d by auto
  have b: "\<forall>k. k \<notin> set (map (vehicle_id w) (r # rs)) \<longrightarrow> m k = m0 k"
    using IH h by auto
  have c: "\<forall>x\<in>set (r # rs). target_speed (heap w1 x) = 1"
    using IH h d by auto
  have e: "\<forall>x. x \<notin> set (r # rs) \<longrightarrow> heap w1 x = heap w x"
    using IH h by auto
  show ?case using a b c e IH h by simp
qed

lemma freeze_enter_ok:
  "\<forall>r\<in>set vs. 1 \<le> get_max_speed w r \<Longrightarrow> \<exists>m w1. freeze_enter vs m0 w = Ok m w1"
proof (induction vs arbitrary: m0 w)
  case Nil
  then show ?case by simp
next
  case (Cons r rs)
  have "\<not> get_max_speed w r < 1" using Cons.prems by auto
  then obtain w' where s: "set_speed r 1 w = Ok () w'"
    by (simp add: set_speed_def Let_def)
  have "\<forall>x\<in>set rs. 1 \<le> get_max_speed w' x"
    using Cons.prems set_speed_Ok_queries(2) [OF s] by simp
  from Cons.IH [OF this] show ?case using s by (simp add: Let_def)
qed

lemma freeze_exit_char:
  assumes "\<forall>r\<in>set vs. m (vehicle_id w r) = Some (f r)"
    and "\<forall>r\<in>set vs. f r \<le> get_max_speed w r"
    and "distinct vs"
  shows "\<exists>w'. freeze_exit vs m w = Ok () w' \<and>
           (\<forall>r\<in>set vs. target_speed (heap w' r) = f r) \<and>
           (\<forall>r. r \<notin> set vs \<longrightarrow> heap w' r = heap w r)"
  using assms
proof (induction vs arbitrary: w)
  case Nil
  then show ?case by simp
next
  case (Cons r rs)
  have "\<not> get_max_speed w r < f r" using Cons.prems by auto
  then obtain w1 where s: "set_speed r (f r) w = Ok () w1"
    by (simp add: set_speed_def Let_def)
  note h = set_speed_Ok [OF s] set_speed_Ok_queries [OF s]
  have p: "\<forall>x\<in>set rs. m (vehicle_id w1 x) = Some (f x)"
    "\<forall>x\<in>set rs. f x \<le> get_max_speed w1 x" "distinct rs" "r \<notin> set rs"
    using Cons.prems h by auto
  from Cons.IH [OF p(1,2,3)] obtain w' where
    run: "freeze_exit rs m w1 = Ok () w'"
    and t: "\<forall>x\<in>set rs. target_speed (heap w' x) = f x"
    and o: "\<forall>x. x \<notin> set rs \<longrightarrow> heap w' x = heap w1 x"
    by blast
  have "freeze_exit (r # rs) m w = Ok () w'"
    using Cons.prems(1) s run by simp
  moreover have "\<forall>x\<in>set (r # rs). target_speed (heap w' x) = f x"
    using t o p(4) h by auto
  moreover have "\<forall>x. x \<notin> set (r # rs) \<longrightarrow> heap w' x = heap w x"
    using o h by auto
  ultimately show ?case by blast
qed

text \<open>
  Claim C6, as amended.  The registered vehicles have pairwise different ids and
  \<open>__enter__\<close> succeeds: then it has stored every vehicle's target speed and set every
  vehicle to speed 1.  If the wait loop is then left, normally or by an error of the step,
  in a state where the tracked vehicles still have their ids and every stored speed is at
  most the vehicle's maximum speed, \<open>wait_for_vehicle\<close> ends the same way (the error is
  raised again) with every tracked vehicle's target speed back at its stored value.
\<close>

theorem speeds_restored_after_wait:
  assumes ids: "distinct (map (vehicle_id w) (VEHICLES w))"
    and enter: "freeze_enter (VEHICLES w) Map.empty w = Ok m w1"
    and left: "wait_loop n step v_id w1 = Some out"
    and kept: "\<forall>r\<in>set (VEHICLES w). vehicle_id (state_of out) r = vehicle_id w r"
    and guard: "\<forall>r\<in>set (VEHICLES w). target_speed (heap w r) \<le> get_max_speed (state_of out) r"
  shows "(\<forall>r\<in>set (VEHICLES w).
            m (vehicle_id w r) = Some (target_speed (heap w r)) \<and> target_speed (heap w1 r) = 1) \<and>
         (\<exists>out'. wait_for_vehicle n step v_id w = Some out' \<and> is_ok out' = is_ok out \<and>
            (\<forall>r\<in>set (VEHICLES w).
               target_speed (heap (state_of out') r) = target_speed (heap w r)))"
proof -
  note E = freeze_enter_char [OF enter ids]
  have first: "\<forall>r\<in>set (VEHICLES w).
      m (vehicle_id w r) = Some (target_speed (heap w r)) \<and> target_speed (heap w1 r) = 1"
    using E by simp
  let ?w2 = "state_of out"
  have snap: "\<forall>r\<in>set (VEHICLES w). m (vehicle_id ?w2 r) = Some (target_speed (heap w r))"
    using E kept by simp
  have dist: "distinct (VEHICLES w)"
    using ids by (simp add: distinct_map)
  from freeze_exit_char [OF snap guard dist] obtain w3 where
    ex: "freeze_exit (VEHICLES w) m ?w2 = Ok () w3"
    and t: "\<forall>r\<in>set (VEHICLES w). target_speed (heap w3 r) = target_speed (heap w r)"
    by blast
  show ?thesis
  proof (cases out)
    case (Ok u w2)
    then have "wait_for_vehicle n step v_id w = Some (Ok () w3)"
      using enter left ex by (simp add: wait_for_vehicle_def)
    then show ?thesis using first t Ok by simp
  next
    case (Err e w2)
    then have "wait_for_vehicle n step v_id w = Some (Err e w3)"
      using enter left ex by (simp add: wait_for_vehicle_def)
    then show ?thesis using first t Err by simp
  qed
qed

text \<open>
  In the scenario the target speeds are 8 before and after, whether \<open>N\<close> appears with the
  first step or the first step raises.
\<close>

theorem speeds_restored_after_wait_witness:
  "distinct (map (vehicle_id scenario_world) (VEHICLES scenario_world)) \<and>
   map (\<lambda>r. target_speed (heap scenario_world r)) [0, 1, 2] = [8, 8, 8] \<and>
   map_option is_ok (wait_for_vehicle 2 arriving_step ''N'' scenario_world) = Some True \<and>
   speeds_after (wait_for_vehicle 2 arriving_step ''N'' scenario_world) = Some [8, 8, 8] \<and>
   map_option is_ok (wait_for_vehicle 2 failing_step ''N'' scenario_world) = Some False \<and>
   speeds_after (wait_for_vehicle 2 failing_step ''N'' scenario_world) = Some [8, 8, 8]"
proof -
  have ids: "distinct (map (vehicle_id scenario_world) (VEHICLES scenario_world))"
    by (simp add: scenario_defs query_defs)
  have vs: "VEHICLES scenario_world = [0, 1, 2]"
    by (simp add: scenario_defs)
  have sp: "map (\<lambda>r. target_speed (heap scenario_world r)) [0, 1, 2] = [8, 8, 8]"
    by (simp add: scenario_defs)
  have mx: "\<forall>r\<in>set (VEHICLES scenario_world). get_max_speed scenario_world r = 30"
    by (simp add: scenario_defs query_defs)
  then have "\<forall>r\<in>set (VEHICLES scenario_world). 1 \<le> get_max_speed scenario_world r"
    by simp
  from freeze_enter_ok [OF this] obtain m w1 where
    enter: "freeze_enter (VEHICLES scenario_world) Map.empty scenario_world = Ok m w1"
    by blast
  note E = freeze_enter_char [OF enter ids]
  have here: "\<not> is_vehicle w1 ''N''" "is_vehicle (arrived w1) ''N''"
    using E by (simp_all add: is_vehicle_def scenario_defs arrived_def arriving_step_def)
  have l1: "wait_loop 2 arriving_step ''N'' w1 = Some (Ok () (arrived w1))"
    using here by (simp add: numeral_2_eq_2 arrived_def arriving_step_def)
  have l2: "wait_loop 2 failing_step ''N'' w1 = Some (Err EngineError w1)"
    using here by (simp add: numeral_2_eq_2 failing_step_def)
  have same: "vehicle_id (arrived w1) = vehicle_id w1" "get_max_speed (arrived w1) = get_max_speed w1"
    by (simp_all add: arrived_def arriving_step_def vehicle_id_def get_max_speed_def fun_eq_iff)
  have k1: "\<forall>r\<in>set (VEHICLES scenario_world).
      vehicle_id (state_of (Ok () (arrived w1))) r = vehicle_id scenario_world r"
    and g1: "\<forall>r\<in>set (VEHICLES scenario_world).
      target_speed (heap scenario_world r) \<le> get_max_speed (state_of (Ok () (arrived w1))) r"
    and k2: "\<forall>r\<in>set (VEHICLES scenario_world).
      vehicle_id (state_of (Err EngineError w1)) r = vehicle_id scenario_world r"
    and g2: "\<forall>r\<in>set (VEHICLES scenario_world).
      target_speed (heap scenario_world r) \<le> get_max_speed (state_of (Err EngineError w1)) r"
    using E mx same by (simp_all add: scenario_defs)
  from speeds_restored_after_wait [OF ids enter l1 k1 g1]
  obtain o1 where r1: "wait_for_vehicle 2 arriving_step ''N'' scenario_world = Some o1"
    "is_ok o1" "\<forall>r\<in>set (VEHICLES scenario_world).
        target_speed (heap (state_of o1) r) = target_speed (heap scenario_world r)"
    by auto
  from speeds_restored_after_wait [OF ids enter l2 k2 g2]
  obtain o2 where r2: "wait_for_vehicle 2 failing_step ''N'' scenario_world = Some o2"
    "\<not> is_ok o2" "\<forall>r\<in>set (VEHICLES scenario_world).
        target_speed (heap (state_of o2) r) = target_speed (heap scenario_world r)"
    by auto
  show ?thesis
    using ids sp r1 r2 by (simp add: speeds_after_def vs)
qed

text \<open>
  Claim C6 as stated fails: in \<open>capped_world\<close> the loop ends normally, but \<open>__exit__\<close> is
  refused the stored speed 8 of \<open>A\<close>, whose maximum speed is 5; it raises, and \<open>A\<close> and
  \<open>B\<close> are left at speed 1.
\<close>

theorem capped_speed_not_restored:
  "distinct (map (vehicle_id capped_world) (VEHICLES capped_world)) \<and>
   map (\<lambda>r. target_speed (heap capped_world r)) [0, 1, 2] = [8, 8, 8] \<and>
   map_option is_ok (wait_for_vehicle 2 arriving_step ''N'' capped_world) = Some False \<and>
   speeds_after (wait_for_vehicle 2 arriving_step ''N'' capped_world) = Some [8, 1, 1]"
  by (simp add: capped_world_def scenario_defs query_defs wait_for_vehicle_def speeds_after_def
      mutator_defs is_vehicle_def Let_def numeral_2_eq_2 arriving_step_def)

section \<open>The registry invariant\<close>



end
